theory Spec2Isabelle
  imports Complex_Main "HOL-Library.AList"
begin

section \<open>Exceptions\<close>

text \<open>
  The exceptions of the Python code that \<^verbatim>\<open>except Exception\<close> catches are values:
  \<open>KeyError k\<close> is what \<^verbatim>\<open>d[k]\<close> raises for a dictionary without the key \<open>k\<close>,
  \<open>ValueError m\<close> carries its message, \<open>ZeroDivisionError\<close> is what a division by zero
  raises, and \<open>Failure m\<close> stands for every other subclass of \<^verbatim>\<open>Exception\<close> that a
  library or the scoring service raises, with its message.
\<close>

datatype exn = KeyError string | ValueError string | ZeroDivisionError | Failure string

text \<open>\<^verbatim>\<open>str(e)\<close>: a \<^verbatim>\<open>KeyError\<close> prints the repr of its key, the others their message.\<close>

fun str_exn :: "exn \<Rightarrow> string" where
  "str_exn (KeyError k) = [CHR 0x27] @ k @ [CHR 0x27]"
| "str_exn (ValueError m) = m"
| "str_exn ZeroDivisionError = ''division by zero''"
| "str_exn (Failure m) = m"

text \<open>\<^verbatim>\<open>d[k]\<close> on a dictionary whose entry for \<open>k\<close> may be absent.\<close>

fun getitem :: "string \<Rightarrow> 'a option \<Rightarrow> exn + 'a" where
  "getitem k None = Inl (KeyError k)"
| "getitem k (Some v) = Inr v"

text \<open>Sequencing of two steps, the first of which may raise.\<close>

definition and_then :: "exn + 'a \<Rightarrow> ('a \<Rightarrow> exn + 'b) \<Rightarrow> exn + 'b" where
  "and_then m f = (case m of Inl e \<Rightarrow> Inl e | Inr x \<Rightarrow> f x)"

section \<open>Strings\<close>

text \<open>
  A Python string is a list of code points; a \<^typ>\<open>char\<close> is a code point below 256.
  \<^verbatim>\<open>str.strip()\<close> removes leading and trailing white space, which in this range is
  U+0009 to U+000D, U+001C to U+0020, U+0085 and U+00A0; \<^verbatim>\<open>str.lower()\<close> maps
  A to Z, and U+00C0 to U+00DE without U+00D7, to the code point 32 above.
\<close>

definition is_space :: "char \<Rightarrow> bool" where
  "is_space c =
     (let n = (of_char c :: nat)
      in (9 \<le> n \<and> n \<le> 13) \<or> (28 \<le> n \<and> n \<le> 32) \<or> n = 133 \<or> n = 160)"

definition str_strip :: "string \<Rightarrow> string" where
  "str_strip s = rev (dropWhile is_space (rev (dropWhile is_space s)))"

definition lower_char :: "char \<Rightarrow> char" where
  "lower_char c =
     (let n = (of_char c :: nat)
      in if (65 \<le> n \<and> n \<le> 90) \<or> (192 \<le> n \<and> n \<le> 222 \<and> n \<noteq> 215)
         then char_of (n + 32) else c)"

definition str_lower :: "string \<Rightarrow> string" where
  "str_lower s = map lower_char s"

text \<open>\<^verbatim>\<open>s.strip().lower()\<close>, the matching key of a question text.\<close>

definition normalize_text :: "string \<Rightarrow> string" where
  "normalize_text s = str_lower (str_strip s)"

text \<open>\<^verbatim>\<open>s.endswith(suf)\<close> and \<^verbatim>\<open>s.startswith(pre)\<close>.\<close>

definition endswith :: "string \<Rightarrow> string \<Rightarrow> bool" where
  "endswith s suf = (length suf \<le> length s \<and> drop (length s - length suf) s = suf)"

definition startswith :: "string \<Rightarrow> string \<Rightarrow> bool" where
  "startswith s pre = (take (length pre) s = pre)"

section \<open>Data model\<close>

datatype attr = Clarity | Specificity | Bias | Actionability

fun attr_name :: "attr \<Rightarrow> string" where
  "attr_name Clarity = ''clarity''"
| "attr_name Specificity = ''specificity''"
| "attr_name Bias = ''bias''"
| "attr_name Actionability = ''actionability''"

text \<open>
  A question is a dictionary with string keys. A field is \<open>None\<close> when the dictionary has
  no such key (a question read from a dataset file may lack any of them); scores are
  Python integers.
\<close>

record question =
  section_name :: "string option"
  question_number :: "int option"
  question_text :: "string option"
  clarity :: "int option"
  specificity :: "int option"
  bias :: "int option"
  actionability :: "int option"

text \<open>\<^verbatim>\<open>q[attr]\<close> for one of the four attribute names.\<close>

fun attr_field :: "attr \<Rightarrow> question \<Rightarrow> int option" where
  "attr_field Clarity q = clarity q"
| "attr_field Specificity q = specificity q"
| "attr_field Bias q = bias q"
| "attr_field Actionability q = actionability q"

text \<open>
  A scoring result: the questions in order and the section averages, a dictionary from
  section name to a dictionary from attribute to average, both in insertion order.
  Python floats are modelled as exact reals.
\<close>

record scoring_result =
  questions :: "question list option"
  section_averages :: "(string \<times> (attr \<times> real) list) list option"

record eval_metrics =
  extraction_accuracy :: real
  score_mae :: "(attr \<times> real) list"
  score_within_1 :: "(attr \<times> real) list"
  section_detection :: real

section \<open>The metrics calculator (eval_harness.py, calculate_eval_metrics)\<close>

text \<open>
  The comprehension \<^verbatim>\<open>{q["question_text"].strip().lower() for q in qs}\<close>, as the list of
  keys in iteration order; the Python set is the set of this list.
\<close>

fun question_keys :: "question list \<Rightarrow> exn + string list" where
  "question_keys [] = Inr []"
| "question_keys (q # qs) =
     and_then (getitem ''question_text'' (question_text q)) (\<lambda>t.
     and_then (question_keys qs) (\<lambda>ts. Inr (normalize_text t # ts)))"

text \<open>
  \<^verbatim>\<open>next((q for q in predicted["questions"] if q["question_text"].strip().lower() == exp_text), None)\<close>:
  the first predicted question with the key \<open>exp_text\<close>.
\<close>

fun find_pred :: "string \<Rightarrow> question list \<Rightarrow> exn + question option" where
  "find_pred exp_text [] = Inr None"
| "find_pred exp_text (q # qs) =
     and_then (getitem ''question_text'' (question_text q)) (\<lambda>t.
       if normalize_text t = exp_text then Inr (Some q) else find_pred exp_text qs)"

text \<open>
  The inner loop over the expected questions for one attribute, with the two lists
  \<open>errors\<close> and \<open>within_1\<close> that it appends to. A predicted question that was
  found has a text, so as a dictionary it is not empty and the test \<^verbatim>\<open>if pred_q\<close>
  holds for it; \<^verbatim>\<open>pred_q[attr]\<close> is read before \<^verbatim>\<open>exp_q[attr]\<close>.
\<close>

fun collect_errors ::
  "attr \<Rightarrow> question list \<Rightarrow> question list \<Rightarrow> int list \<Rightarrow> bool list \<Rightarrow> exn + (int list \<times> bool list)"
where
  "collect_errors a pqs [] errors within_1 = Inr (errors, within_1)"
| "collect_errors a pqs (exp_q # eqs) errors within_1 =
     and_then (getitem ''question_text'' (question_text exp_q)) (\<lambda>t.
     and_then (find_pred (normalize_text t) pqs) (\<lambda>found.
       case found of
         None \<Rightarrow> collect_errors a pqs eqs errors within_1
       | Some pred_q \<Rightarrow>
           and_then (getitem (attr_name a) (attr_field a pred_q)) (\<lambda>pv.
           and_then (getitem (attr_name a) (attr_field a exp_q)) (\<lambda>ev.
             let error = \<bar>pv - ev\<bar>
             in collect_errors a pqs eqs (errors @ [error]) (within_1 @ [error \<le> 1])))))"

text \<open>\<^verbatim>\<open>sum(errors) / len(errors) if errors else 0.0\<close>.\<close>

definition mean_errors :: "int list \<Rightarrow> real" where
  "mean_errors errors =
     (if errors \<noteq> [] then real_of_int (sum_list errors) / real (length errors) else 0)"

text \<open>\<^verbatim>\<open>sum(within_1) / len(within_1) if within_1 else 0.0\<close>; a true element counts 1.\<close>

definition mean_bools :: "bool list \<Rightarrow> real" where
  "mean_bools within_1 =
     (if within_1 \<noteq> []
      then real (sum_list (map (\<lambda>b. if b then 1 else 0) within_1)) / real (length within_1)
      else 0)"

text \<open>The loop over the attributes, storing one entry per attribute in both dictionaries.\<close>

fun score_attributes ::
  "attr list \<Rightarrow> question list \<Rightarrow> question list \<Rightarrow> eval_metrics \<Rightarrow> exn + eval_metrics"
where
  "score_attributes [] pqs eqs metrics = Inr metrics"
| "score_attributes (a # as) pqs eqs metrics =
     and_then (collect_errors a pqs eqs [] []) (\<lambda>(errors, within_1).
       score_attributes as pqs eqs
         (metrics\<lparr>score_mae := AList.update a (mean_errors errors) (score_mae metrics),
                  score_within_1 := AList.update a (mean_bools within_1) (score_within_1 metrics)\<rparr>))"

definition attributes :: "attr list" where
  "attributes = [Clarity, Specificity, Bias, Actionability]"

text \<open>
  The section-detection block: \<^verbatim>\<open>expected.get("section_averages")\<close> is false for a missing
  key and for an empty dictionary.
\<close>

definition detect_sections :: "scoring_result \<Rightarrow> scoring_result \<Rightarrow> eval_metrics \<Rightarrow> exn + eval_metrics" where
  "detect_sections predicted expected metrics =
     (case section_averages expected of
        None \<Rightarrow> Inr metrics
      | Some exp_avgs \<Rightarrow>
          if exp_avgs = [] then Inr metrics
          else
            and_then (getitem ''section_averages'' (section_averages predicted)) (\<lambda>pred_avgs.
              let pred_sections = set (map fst pred_avgs);
                  exp_sections = set (map fst exp_avgs)
              in if card exp_sections > 0
                 then Inr (metrics\<lparr>section_detection :=
                        real (card (pred_sections \<inter> exp_sections)) / real (card exp_sections)\<rparr>)
                 else Inr metrics))"

definition calculate_eval_metrics :: "scoring_result \<Rightarrow> scoring_result \<Rightarrow> exn + eval_metrics" where
  "calculate_eval_metrics predicted expected =
     (let metrics = \<lparr>extraction_accuracy = 0, score_mae = [], score_within_1 = [],
                     section_detection = 0\<rparr>
      in and_then (getitem ''questions'' (questions predicted)) (\<lambda>pqs.
         and_then (question_keys pqs) (\<lambda>pred_keys.
         and_then (getitem ''questions'' (questions expected)) (\<lambda>eqs.
         and_then (question_keys eqs) (\<lambda>exp_keys.
           let pred_questions = set pred_keys;
               exp_questions = set exp_keys;
               metrics1 =
                 (if card exp_questions > 0
                  then metrics\<lparr>extraction_accuracy :=
                         real (card (pred_questions \<inter> exp_questions)) / real (card exp_questions)\<rparr>
                  else metrics)
           in and_then (score_attributes attributes pqs eqs metrics1) (\<lambda>metrics2.
                detect_sections predicted expected metrics2))))))"

section \<open>The eval runner (eval_harness.py, EvalHarness.run_evals)\<close>

text \<open>
  A dataset entry is a dictionary read from the dataset file; a field is \<open>None\<close> when
  the entry has no such key. \<open>case_id\<close> is the key \<^verbatim>\<open>"id"\<close>.
\<close>

record eval_case =
  case_id :: "string option"
  document :: "string option"
  expected_output :: "scoring_result option"

text \<open>A result row is a dictionary from column name to a string or a number.\<close>

datatype cell = Str string | Num real

type_synonym row = "(string \<times> cell) list"

text \<open>
  The row of a successful case: the three fixed entries, then one entry per item of
  \<^verbatim>\<open>metrics["score_mae"]\<close> and of \<^verbatim>\<open>metrics["score_within_1"]\<close>.
\<close>

definition flatten_metrics :: "string \<Rightarrow> eval_metrics \<Rightarrow> row" where
  "flatten_metrics eval_id metrics =
     (let result = [(''eval_id'', Str eval_id),
                    (''extraction_acc'', Num (extraction_accuracy metrics)),
                    (''section_detection'', Num (section_detection metrics))];
          result1 = fold (\<lambda>(a, mae). AList.update (attr_name a @ ''_mae'') (Num mae))
                      (score_mae metrics) result;
          result2 = fold (\<lambda>(a, within_1). AList.update (attr_name a @ ''_within_1'') (Num within_1))
                      (score_within_1 metrics) result1
      in result2)"

definition error_row :: "string \<Rightarrow> exn \<Rightarrow> row" where
  "error_row eval_id e = [(''eval_id'', Str eval_id), (''error'', Str (str_exn e))]"

text \<open>
  The body of the \<^verbatim>\<open>try\<close> block. The scorer is the external collaborator
  \<^verbatim>\<open>self.scorer.score_document\<close>: it may raise, and it may answer differently from one
  call to the next, so it is a function of a state \<open>'s\<close> that it returns updated.
  Printing is not modelled.
\<close>

definition run_case ::
  "('s \<Rightarrow> string \<Rightarrow> (exn + scoring_result) \<times> 's) \<Rightarrow> 's \<Rightarrow> eval_case \<Rightarrow> string \<Rightarrow> (exn + row) \<times> 's"
where
  "run_case score_doc s eval_case eval_id =
     (case getitem ''document'' (document eval_case) of
        Inl e \<Rightarrow> (Inl e, s)
      | Inr doc \<Rightarrow>
          (case score_doc s doc of
             (scored, s') \<Rightarrow>
               (and_then scored (\<lambda>predicted.
                and_then (getitem ''expected_output'' (expected_output eval_case)) (\<lambda>expected.
                and_then (calculate_eval_metrics predicted expected) (\<lambda>metrics.
                  Inr (flatten_metrics eval_id metrics)))), s')))"

text \<open>
  The loop over the dataset. \<^verbatim>\<open>eval_case["id"]\<close> is read before the \<^verbatim>\<open>try\<close>, so its
  \<^verbatim>\<open>KeyError\<close> leaves the function; an exception of the body is caught and becomes an
  error row. The data frame returned is the list of rows.
\<close>

fun run_evals_loop ::
  "('s \<Rightarrow> string \<Rightarrow> (exn + scoring_result) \<times> 's) \<Rightarrow> 's \<Rightarrow> eval_case list \<Rightarrow> row list
     \<Rightarrow> (exn + row list) \<times> 's"
where
  "run_evals_loop score_doc s [] results = (Inr results, s)"
| "run_evals_loop score_doc s (eval_case # rest) results =
     (case getitem ''id'' (case_id eval_case) of
        Inl e \<Rightarrow> (Inl e, s)
      | Inr eval_id \<Rightarrow>
          (case run_case score_doc s eval_case eval_id of
             (Inr result, s') \<Rightarrow> run_evals_loop score_doc s' rest (results @ [result])
           | (Inl e, s') \<Rightarrow> run_evals_loop score_doc s' rest (results @ [error_row eval_id e])))"

definition run_evals ::
  "('s \<Rightarrow> string \<Rightarrow> (exn + scoring_result) \<times> 's) \<Rightarrow> 's \<Rightarrow> eval_case list \<Rightarrow> (exn + row list) \<times> 's"
where
  "run_evals score_doc s eval_dataset = run_evals_loop score_doc s eval_dataset []"

section \<open>The threshold gate (eval_harness.py, EvalHarness.check_pass_fail)\<close>

definition THRESHOLDS :: "(string \<times> real) list" where
  "THRESHOLDS =
     [(''extraction_accuracy'', 0.95),
      (''clarity_mae'', 0.5),
      (''specificity_mae'', 0.5),
      (''bias_mae'', 0.7),
      (''actionability_mae'', 0.8),
      (''clarity_within_1'', 0.85),
      (''specificity_within_1'', 0.85),
      (''bias_within_1'', 0.80),
      (''actionability_within_1'', 0.80)]"

text \<open>
  The data frame is built by pandas from the list of row dictionaries: its columns are
  the keys that occur in some row, and a row without the key has a missing value there.
  \<open>df_column\<close> is the list of the values of a column that are not missing.
  \<^verbatim>\<open>select_dtypes(include=['float64', 'int64'])\<close> keeps a column when all its values
  are numbers, and \<^verbatim>\<open>mean()\<close> skips the missing values.
\<close>

definition df_column :: "row list \<Rightarrow> string \<Rightarrow> cell list" where
  "df_column rows col = List.map_filter (\<lambda>r. map_of r col) rows"

fun is_num :: "cell \<Rightarrow> bool" where
  "is_num (Num x) = True"
| "is_num (Str s) = False"

fun num_value :: "cell \<Rightarrow> real" where
  "num_value (Num x) = x"
| "num_value (Str s) = 0"

definition df_means :: "row list \<Rightarrow> string \<Rightarrow> real option" where
  "df_means rows col =
     (let cells = df_column rows col
      in if cells \<noteq> [] \<and> list_all is_num cells
         then Some (sum_list (map num_value cells) / real (length cells))
         else None)"

text \<open>The loop over \<^verbatim>\<open>THRESHOLDS.items()\<close> with the flag \<open>all_passed\<close>.\<close>

fun threshold_checks :: "(string \<times> real) list \<Rightarrow> (string \<Rightarrow> real option) \<Rightarrow> bool \<Rightarrow> bool" where
  "threshold_checks [] means all_passed = all_passed"
| "threshold_checks ((metric, threshold) # rest) means all_passed =
     (case means metric of
        None \<Rightarrow> threshold_checks rest means all_passed
      | Some actual \<Rightarrow>
          (let passed = (if endswith metric ''_mae'' then actual \<le> threshold
                         else actual \<ge> threshold)
           in threshold_checks rest means (if \<not> passed then False else all_passed)))"

definition check_pass_fail :: "row list \<Rightarrow> bool" where
  "check_pass_fail results_df = threshold_checks THRESHOLDS (df_means results_df) True"

section \<open>Parsing the CSV answer (QuestionnaireScorer._parse_csv_output)\<close>

text \<open>
  The function has the same text in questionnaire_scorer.py and questionnaire_scrorer.py.
  \<^verbatim>\<open>csv.DictReader\<close> belongs to the Python library: a row is what it yields, with the
  cells of the seven columns the function reads, as strings. The conversion \<^verbatim>\<open>int(s)\<close>
  is the builtin, a parameter \<open>to_int\<close> that raises for a string that is no integer.
\<close>

record csv_row =
  csv_Section :: string
  csv_Question_Number :: string
  csv_Question_Text :: string
  csv_Clarity :: string
  csv_Specificity :: string
  csv_Bias :: string
  csv_Actionability :: string

type_synonym section_scores = "(string \<times> (attr \<times> int list) list) list"

text \<open>\<^verbatim>\<open>section_scores[section][attr].append(v)\<close>.\<close>

definition append_score :: "string \<Rightarrow> attr \<Rightarrow> int \<Rightarrow> section_scores \<Rightarrow> section_scores" where
  "append_score sec a v scores = AList.map_entry sec (AList.map_entry a (\<lambda>vals. vals @ [v])) scores"

text \<open>The loop over the rows, with the list \<open>questions\<close> and the dictionary \<open>section_scores\<close>.\<close>

fun parse_rows ::
  "(string \<Rightarrow> exn + int) \<Rightarrow> csv_row list \<Rightarrow> question list \<Rightarrow> section_scores
     \<Rightarrow> exn + (question list \<times> section_scores)"
where
  "parse_rows to_int [] qs scores = Inr (qs, scores)"
| "parse_rows to_int (r # rest) qs scores =
     and_then (to_int (csv_Question_Number r)) (\<lambda>n.
     and_then (to_int (csv_Clarity r)) (\<lambda>c.
     and_then (to_int (csv_Specificity r)) (\<lambda>s.
     and_then (to_int (csv_Bias r)) (\<lambda>b.
     and_then (to_int (csv_Actionability r)) (\<lambda>a.
       let question = \<lparr>section_name = Some (csv_Section r), question_number = Some n,
                        question_text = Some (csv_Question_Text r), clarity = Some c,
                        specificity = Some s, bias = Some b, actionability = Some a\<rparr>;
           qs1 = qs @ [question];
           sec = csv_Section r;
           scores0 = (if map_of scores sec = None
                      then AList.update sec
                             [(Clarity, []), (Specificity, []), (Bias, []), (Actionability, [])] scores
                      else scores)
       in and_then (to_int (csv_Clarity r)) (\<lambda>c'.
          and_then (to_int (csv_Specificity r)) (\<lambda>s'.
          and_then (to_int (csv_Bias r)) (\<lambda>b'.
          and_then (to_int (csv_Actionability r)) (\<lambda>a'.
            parse_rows to_int rest qs1
              (append_score sec Actionability a'
                (append_score sec Bias b'
                  (append_score sec Specificity s'
                    (append_score sec Clarity c' scores0)))))))))))))"

text \<open>\<^verbatim>\<open>sum(vals) / len(vals)\<close>, which raises for an empty list.\<close>

definition average :: "int list \<Rightarrow> exn + real" where
  "average vals =
     (if length vals = 0 then Inl ZeroDivisionError
      else Inr (real_of_int (sum_list vals) / real (length vals)))"

text \<open>
  The dictionary comprehension over \<^verbatim>\<open>scores.items()\<close> of one section. The keys of a
  dictionary are distinct, so storing the entries in iteration order is consing them.
\<close>

fun average_attrs :: "(attr \<times> int list) list \<Rightarrow> exn + (attr \<times> real) list" where
  "average_attrs [] = Inr []"
| "average_attrs ((a, vals) # rest) =
     and_then (average vals) (\<lambda>avg.
     and_then (average_attrs rest) (\<lambda>avgs. Inr ((a, avg) # avgs)))"

text \<open>The loop over \<^verbatim>\<open>section_scores.items()\<close>, in the same way.\<close>

fun average_sections :: "section_scores \<Rightarrow> exn + (string \<times> (attr \<times> real) list) list" where
  "average_sections [] = Inr []"
| "average_sections ((sec, scores) # rest) =
     and_then (average_attrs scores) (\<lambda>avgs.
     and_then (average_sections rest) (\<lambda>others. Inr ((sec, avgs) # others)))"

definition parse_csv_output :: "(string \<Rightarrow> exn + int) \<Rightarrow> csv_row list \<Rightarrow> exn + scoring_result" where
  "parse_csv_output to_int reader =
     and_then (parse_rows to_int reader [] []) (\<lambda>(qs, scores).
     and_then (average_sections scores) (\<lambda>avgs.
       Inr \<lparr>questions = Some qs, section_averages = Some avgs\<rparr>))"

section \<open>Scoring a document (QuestionnaireScorer.score_document)\<close>

text \<open>
  What the function does to the outside world is a list of events, in order: reading a
  DOCX file, reading a file as bytes, the call of the scoring service with its content
  blocks, and writing a file. The calls of the logger only print and are not modelled.
\<close>

datatype content_block = Text_block string | Document_block string string

datatype event =
  Read_docx string
| Read_file string
| Messages_create "content_block list"
| Write_file string string

text \<open>
  The outside world and the Python library, as parameters: \<open>path_suffix\<close> and
  \<open>path_stem\<close> are \<^verbatim>\<open>Path(p).suffix\<close> and \<^verbatim>\<open>Path(p).stem\<close>; \<open>read_docx\<close> is
  \<^verbatim>\<open>Document(p).paragraphs\<close>, each paragraph with its text and the name of its style;
  \<open>read_base64\<close> is the content of the file, base64-encoded; \<open>messages_create\<close> is the
  call of the service, answering with \<^verbatim>\<open>response.content[0].text\<close>; \<open>write_text\<close> writes
  a file; \<open>dict_reader\<close> is \<^verbatim>\<open>csv.DictReader\<close> and \<open>to_int\<close> is \<^verbatim>\<open>int\<close>. The
  constant \<^verbatim>\<open>SCORING_PROMPT\<close> of each of the two modules is a text that no property
  here looks into; it is the field \<open>scoring_prompt\<close>.
\<close>

record environment =
  path_suffix :: "string \<Rightarrow> string"
  path_stem :: "string \<Rightarrow> string"
  read_docx :: "string \<Rightarrow> exn + (string \<times> string) list"
  read_base64 :: "string \<Rightarrow> exn + string"
  messages_create :: "content_block list \<Rightarrow> exn + string"
  write_text :: "string \<Rightarrow> string \<Rightarrow> exn + unit"
  dict_reader :: "string \<Rightarrow> csv_row list"
  to_int :: "string \<Rightarrow> exn + int"
  scoring_prompt :: string

text \<open>\<^verbatim>\<open>sep.join(parts)\<close> and \<^verbatim>\<open>s.split(sep)\<close> for a separator of one character.\<close>

fun str_join :: "string \<Rightarrow> string list \<Rightarrow> string" where
  "str_join sep [] = []"
| "str_join sep [x] = x"
| "str_join sep (x # y # ys) = x @ sep @ str_join sep (y # ys)"

fun str_split :: "char \<Rightarrow> string \<Rightarrow> string list" where
  "str_split sep [] = [[]]"
| "str_split sep (c # cs) =
     (if c = sep then [] # str_split sep cs
      else (case str_split sep cs of [] \<Rightarrow> [[c]] | l # ls \<Rightarrow> (c # l) # ls))"

text \<open>The loop of \<^verbatim>\<open>_extract_docx_text\<close> over the paragraphs.\<close>

fun docx_text_parts :: "(string \<times> string) list \<Rightarrow> string list \<Rightarrow> string list" where
  "docx_text_parts [] text_parts = text_parts"
| "docx_text_parts ((para_text, style_name) # rest) text_parts =
     (let t = str_strip para_text
      in if t \<noteq> []
         then if startswith style_name ''Heading''
              then docx_text_parts rest (text_parts @ [[CHR 0x0A] @ ''## '' @ t @ [CHR 0x0A]])
              else docx_text_parts rest (text_parts @ [t])
         else docx_text_parts rest text_parts)"

definition extract_docx_text :: "environment \<Rightarrow> string \<Rightarrow> exn + string" where
  "extract_docx_text env doc_path =
     and_then (read_docx env doc_path) (\<lambda>paragraphs.
       Inr (str_join [CHR 0x0A] (docx_text_parts paragraphs [])))"

text \<open>Removing the markdown fence around the answer, in both modules.\<close>

definition strip_fence :: "string \<Rightarrow> string" where
  "strip_fence csv_text =
     (if startswith csv_text ''```''
      then (let lines = str_split (CHR 0x0A) csv_text
            in if length lines > 2 then str_join [CHR 0x0A] (butlast (tl lines)) else csv_text)
      else csv_text)"

definition unsupported_format :: "string \<Rightarrow> exn" where
  "unsupported_format suffix =
     ValueError (''Unsupported file format: '' @ suffix @ ''. Use .docx or .pdf'')"

text \<open>
  The first half of \<^verbatim>\<open>score_document\<close> in questionnaire_scorer.py: the content blocks
  for the suffix, with the events of building them.
\<close>

definition content_blocks_for :: "environment \<Rightarrow> string \<Rightarrow> string \<Rightarrow> (exn + content_block list) \<times> event list" where
  "content_blocks_for env doc_path suffix =
     (if suffix = ''.docx''
      then (and_then (extract_docx_text env doc_path) (\<lambda>text_content.
              Inr [Text_block (''Here is the questionnaire document:'' @ [CHR 0x0A, CHR 0x0A]
                     @ text_content @ [CHR 0x0A, CHR 0x0A] @ scoring_prompt env)]),
            [Read_docx doc_path])
      else if suffix = ''.pdf''
      then (and_then (read_base64 env doc_path) (\<lambda>doc_data.
              Inr [Document_block ''application/pdf'' doc_data, Text_block (scoring_prompt env)]),
            [Read_file doc_path])
      else (Inl (unsupported_format suffix), []))"

text \<open>The second half, shared in its shape by both modules: from the answer to the result.\<close>

definition parse_response :: "environment \<Rightarrow> string \<Rightarrow> exn + scoring_result" where
  "parse_response env csv_text = parse_csv_output (to_int env) (dict_reader env csv_text)"

definition score_document :: "environment \<Rightarrow> string \<Rightarrow> bool \<Rightarrow> (exn + scoring_result) \<times> event list" where
  "score_document env doc_path save_csv =
     (let suffix = str_lower (path_suffix env doc_path)
      in case content_blocks_for env doc_path suffix of
           (Inl e, events) \<Rightarrow> (Inl e, events)
         | (Inr content_blocks, events) \<Rightarrow>
             (let events1 = events @ [Messages_create content_blocks]
              in case messages_create env content_blocks of
                   Inl e \<Rightarrow> (Inl e, events1)
                 | Inr response_text \<Rightarrow>
                     (let csv_text = strip_fence (str_strip response_text)
                      in if save_csv
                         then (let csv_filename = ''scoring_results_'' @ path_stem env doc_path @ ''.csv'';
                                   events2 = events1 @ [Write_file csv_filename csv_text]
                               in case write_text env csv_filename csv_text of
                                    Inl e \<Rightarrow> (Inl e, events2)
                                  | Inr u \<Rightarrow> (parse_response env csv_text, events2))
                         else (parse_response env csv_text, events1))))"

subsection \<open>The older module (questionnaire_scrorer.py)\<close>

definition media_types :: "(string \<times> string) list" where
  "media_types =
     [(''.docx'', ''application/vnd.openxmlformats-officedocument.wordprocessingml.document''),
      (''.pdf'', ''application/pdf''),
      (''.doc'', ''application/msword'')]"

text \<open>\<^verbatim>\<open>media_types.get(suffix, "application/pdf")\<close>.\<close>

definition media_type_for :: "string \<Rightarrow> string" where
  "media_type_for suffix =
     (case map_of media_types suffix of Some m \<Rightarrow> m | None \<Rightarrow> ''application/pdf'')"

definition legacy_score_document :: "environment \<Rightarrow> string \<Rightarrow> (exn + scoring_result) \<times> event list" where
  "legacy_score_document env doc_path =
     (case read_base64 env doc_path of
        Inl e \<Rightarrow> (Inl e, [Read_file doc_path])
      | Inr doc_data \<Rightarrow>
          (let suffix = str_lower (path_suffix env doc_path);
               media_type = media_type_for suffix;
               content_blocks = [Document_block media_type doc_data, Text_block (scoring_prompt env)];
               events = [Read_file doc_path, Messages_create content_blocks]
           in case messages_create env content_blocks of
                Inl e \<Rightarrow> (Inl e, events)
              | Inr response_text \<Rightarrow>
                  (parse_response env (strip_fence (str_strip response_text)), events)))"

section \<open>Notions of the specification\<close>

text \<open>
  A question is complete when it has its text and its four scores, as the data model
  says of every question. Its matching key is its text, trimmed and in lower case.
\<close>

definition complete_question :: "question \<Rightarrow> bool" where
  "complete_question q =
     (question_text q \<noteq> None \<and> clarity q \<noteq> None \<and> specificity q \<noteq> None \<and>
      bias q \<noteq> None \<and> actionability q \<noteq> None)"

definition match_key :: "question \<Rightarrow> string" where
  "match_key q = normalize_text (the (question_text q))"

definition score :: "attr \<Rightarrow> question \<Rightarrow> int" where
  "score a q = the (attr_field a q)"

text \<open>
  The pairing of the specification: the expected questions in their order, each with the
  first predicted question of the same key, and those without one left out.
\<close>

definition first_match :: "question list \<Rightarrow> question \<Rightarrow> question option" where
  "first_match pqs exp_q = find (\<lambda>pred_q. match_key pred_q = match_key exp_q) pqs"

definition matched_pairs :: "question list \<Rightarrow> question list \<Rightarrow> (question \<times> question) list" where
  "matched_pairs pqs eqs =
     List.map_filter (\<lambda>exp_q. map_option (\<lambda>pred_q. (pred_q, exp_q)) (first_match pqs exp_q)) eqs"

definition abs_error :: "attr \<Rightarrow> question \<times> question \<Rightarrow> int" where
  "abs_error a pe = \<bar>score a (fst pe) - score a (snd pe)\<bar>"

text \<open>The mean absolute error over the pairs, and the fraction of the pairs within 1.\<close>

definition mean_abs_error :: "attr \<Rightarrow> (question \<times> question) list \<Rightarrow> real" where
  "mean_abs_error a pairs =
     (if pairs = [] then 0
      else real_of_int (sum_list (map (abs_error a) pairs)) / real (length pairs))"

definition fraction_within_1 :: "attr \<Rightarrow> (question \<times> question) list \<Rightarrow> real" where
  "fraction_within_1 a pairs =
     (if pairs = [] then 0
      else real (length (filter (\<lambda>pe. abs_error a pe \<le> 1) pairs)) / real (length pairs))"

text \<open>The share of a set \<open>E\<close> that lies in a set \<open>P\<close>, and 0 for an empty \<open>E\<close>.\<close>

definition share_found :: "'a set \<Rightarrow> 'a set \<Rightarrow> real" where
  "share_found P E = (if E = {} then 0 else real (card (P \<inter> E)) / real (card E))"

definition key_set :: "question list \<Rightarrow> string set" where
  "key_set qs = set (map match_key qs)"

definition section_names :: "(string \<times> 'a) list option \<Rightarrow> string set" where
  "section_names avgs = (case avgs of None \<Rightarrow> {} | Some kvs \<Rightarrow> set (map fst kvs))"

text \<open>
  The fixed threshold table of the specification, each metric with its threshold and
  its direction, and the checks that the gate evaluates for a table of means: one for
  each line of the table whose metric has a mean.
\<close>

datatype direction = Lower_is_better | Higher_is_better

definition threshold_table :: "(string \<times> real \<times> direction) list" where
  "threshold_table =
     [(''extraction_accuracy'', 0.95, Higher_is_better),
      (''clarity_mae'', 0.5, Lower_is_better),
      (''specificity_mae'', 0.5, Lower_is_better),
      (''bias_mae'', 0.7, Lower_is_better),
      (''actionability_mae'', 0.8, Lower_is_better),
      (''clarity_within_1'', 0.85, Higher_is_better),
      (''specificity_within_1'', 0.85, Higher_is_better),
      (''bias_within_1'', 0.80, Higher_is_better),
      (''actionability_within_1'', 0.80, Higher_is_better)]"

fun check_passes :: "direction \<Rightarrow> real \<Rightarrow> real \<Rightarrow> bool" where
  "check_passes Lower_is_better mean threshold = (mean \<le> threshold)"
| "check_passes Higher_is_better mean threshold = (mean \<ge> threshold)"

definition evaluated_checks ::
  "(string \<times> real \<times> direction) list \<Rightarrow> (string \<Rightarrow> real option) \<Rightarrow> bool list" where
  "evaluated_checks table means =
     List.map_filter (\<lambda>(metric, threshold, d).
       map_option (\<lambda>mean. check_passes d mean threshold) (means metric)) table"

text \<open>A row with no other field than \<open>eval_id\<close> and \<open>error\<close>.\<close>

definition error_only :: "row \<Rightarrow> bool" where
  "error_only r = list_all (\<lambda>(k, v). k = ''eval_id'' \<or> k = ''error'') r"

text \<open>The rows in which a column is populated, and the values they have there.\<close>

definition populated :: "row list \<Rightarrow> string \<Rightarrow> row list" where
  "populated rows col = filter (\<lambda>r. map_of r col \<noteq> None) rows"

definition populated_values :: "row list \<Rightarrow> string \<Rightarrow> real list" where
  "populated_values rows col = map (\<lambda>r. num_value (the (map_of r col))) (populated rows col)"

text \<open>A column is numeric when its value is a number in every row that has one.\<close>

definition numeric_column :: "row list \<Rightarrow> string \<Rightarrow> bool" where
  "numeric_column rows col = list_all (\<lambda>r. is_num (the (map_of r col))) (populated rows col)"

text \<open>
  The questions of a section, and the arithmetic mean of an attribute over them.
\<close>

definition questions_of_section :: "string \<Rightarrow> question list \<Rightarrow> question list" where
  "questions_of_section sec qs = filter (\<lambda>q. section_name q = Some sec) qs"

definition section_mean :: "attr \<Rightarrow> string \<Rightarrow> question list \<Rightarrow> real" where
  "section_mean a sec qs =
     real_of_int (sum_list (map (score a) (questions_of_section sec qs)))
       / real (length (questions_of_section sec qs))"

text \<open>
  What holds of \<open>questions\<close> and \<open>section_scores\<close> after each row: the sections are
  distinct, they are the sections of the questions so far, and each has, for each of
  the four attributes, the scores of its questions in order.
\<close>

definition scores_invariant :: "question list \<Rightarrow> section_scores \<Rightarrow> bool" where
  "scores_invariant qs scores =
     (distinct (map fst scores) \<and>
      Some ` set (map fst scores) = set (map section_name qs) \<and>
      (\<forall>sec \<in> set (map fst scores). \<exists>attr_scores.
         map_of scores sec = Some attr_scores \<and>
         map fst attr_scores = attributes \<and>
         (\<forall>a. map_of attr_scores a = Some (map (score a) (questions_of_section sec qs)))))"

section \<open>Example data\<close>

text \<open>
  A predicted result with the texts \<^verbatim>\<open>"age? "\<close> and, twice, \<^verbatim>\<open>" JOB?"\<close>, and an expected
  output with the texts \<^verbatim>\<open>"Age?"\<close>, \<^verbatim>\<open>"Name?"\<close> and \<^verbatim>\<open>"Job?"\<close>.
\<close>

definition mk_question :: "string \<Rightarrow> string \<Rightarrow> int \<Rightarrow> int \<Rightarrow> int \<Rightarrow> int \<Rightarrow> int \<Rightarrow> question" where
  "mk_question sec t n c s b a =
     \<lparr>section_name = Some sec, question_number = Some n, question_text = Some t,
      clarity = Some c, specificity = Some s, bias = Some b, actionability = Some a\<rparr>"

definition pred_questions_ex :: "question list" where
  "pred_questions_ex =
     [mk_question ''A'' ''age? '' 1 4 5 5 3,
      mk_question ''B'' '' JOB?'' 1 2 4 3 1,
      mk_question ''B'' '' JOB?'' 2 5 5 5 5]"

definition exp_questions_ex :: "question list" where
  "exp_questions_ex =
     [mk_question ''A'' ''Age?'' 1 5 5 5 5,
      mk_question ''A'' ''Name?'' 2 3 3 3 3,
      mk_question ''C'' ''Job?'' 1 5 4 1 2]"

definition predicted_ex :: scoring_result where
  "predicted_ex =
     \<lparr>questions = Some pred_questions_ex,
      section_averages = Some [(''A'', [(Clarity, 4)]), (''B'', [(Clarity, 7 / 2)])]\<rparr>"

definition expected_ex :: scoring_result where
  "expected_ex =
     \<lparr>questions = Some exp_questions_ex,
      section_averages = Some [(''A'', [(Clarity, 4)]), (''C'', [(Clarity, 5)])]\<rparr>"

text \<open>Means that sit exactly on the nine thresholds.\<close>

definition boundary_means :: "string \<Rightarrow> real option" where
  "boundary_means = map_of THRESHOLDS"

text \<open>
  Three result rows: a successful case with a clarity error of 0.9, a case that failed,
  and a successful case with a clarity error of 0.3. The mean of the clarity error over
  the two rows that have one is 0.6, above the threshold 0.5; with the failed case
  counted as a zero it would be 0.4.
\<close>

definition rows_ex :: "row list" where
  "rows_ex =
     [[(''eval_id'', Str ''case-1''), (''extraction_acc'', Num 1), (''section_detection'', Num 1),
       (''clarity_mae'', Num 0.9), (''clarity_within_1'', Num 1)],
      [(''eval_id'', Str ''case-2''), (''error'', Str ''boom'')],
      [(''eval_id'', Str ''case-3''), (''extraction_acc'', Num 1), (''section_detection'', Num 1),
       (''clarity_mae'', Num 0.3), (''clarity_within_1'', Num 1)]]"

text \<open>
  A scorer that counts its calls, fails for the document \<^verbatim>\<open>bad.pdf\<close> and answers
  \<open>predicted_ex\<close> otherwise, and a dataset of three entries: a good one, one whose
  document makes the scorer fail, and one without expected output.
\<close>

definition scorer_ex :: "nat \<Rightarrow> string \<Rightarrow> (exn + scoring_result) \<times> nat" where
  "scorer_ex n doc =
     (if doc = ''bad.pdf'' then (Inl (Failure ''boom''), n + 1) else (Inr predicted_ex, n + 1))"

definition dataset_ex :: "eval_case list" where
  "dataset_ex =
     [\<lparr>case_id = Some ''case-1'', document = Some ''good.pdf'', expected_output = Some expected_ex\<rparr>,
      \<lparr>case_id = Some ''case-2'', document = Some ''bad.pdf'', expected_output = Some expected_ex\<rparr>,
      \<lparr>case_id = Some ''case-3'', document = Some ''good.pdf'', expected_output = None\<rparr>]"

text \<open>A dataset whose first entry has no \<^verbatim>\<open>"id"\<close>.\<close>

definition dataset_without_id :: "eval_case list" where
  "dataset_without_id =
     [\<lparr>case_id = None, document = Some ''good.pdf'', expected_output = Some expected_ex\<rparr>,
      \<lparr>case_id = Some ''case-2'', document = Some ''good.pdf'', expected_output = Some expected_ex\<rparr>]"

text \<open>
  Three rows as the CSV reader yields them, two of the section A and one of the section
  B, and a conversion that knows the numerals 1 to 5.
\<close>

definition to_int_ex :: "string \<Rightarrow> exn + int" where
  "to_int_ex s =
     (if s = ''1'' then Inr 1 else if s = ''2'' then Inr 2 else if s = ''3'' then Inr 3
      else if s = ''4'' then Inr 4 else if s = ''5'' then Inr 5
      else Inl (ValueError (''invalid literal for int() with base 10: '' @ s)))"

definition csv_rows_ex :: "csv_row list" where
  "csv_rows_ex =
     [\<lparr>csv_Section = ''A'', csv_Question_Number = ''1'', csv_Question_Text = ''Age?'',
       csv_Clarity = ''5'', csv_Specificity = ''4'', csv_Bias = ''3'', csv_Actionability = ''2''\<rparr>,
      \<lparr>csv_Section = ''B'', csv_Question_Number = ''1'', csv_Question_Text = ''Name?'',
       csv_Clarity = ''1'', csv_Specificity = ''1'', csv_Bias = ''3'', csv_Actionability = ''2''\<rparr>,
      \<lparr>csv_Section = ''A'', csv_Question_Number = ''2'', csv_Question_Text = ''Job?'',
       csv_Clarity = ''2'', csv_Specificity = ''1'', csv_Bias = ''3'', csv_Actionability = ''2''\<rparr>]"

definition parsed_ex :: scoring_result where
  "parsed_ex =
     \<lparr>questions = Some [mk_question ''A'' ''Age?'' 1 5 4 3 2,
                         mk_question ''B'' ''Name?'' 1 1 1 3 2,
                         mk_question ''A'' ''Job?'' 2 2 1 3 2],
      section_averages =
        Some [(''A'', [(Clarity, 7 / 2), (Specificity, 5 / 2), (Bias, 3), (Actionability, 2)]),
              (''B'', [(Clarity, 1), (Specificity, 1), (Bias, 3), (Actionability, 2)])]\<rparr>"

text \<open>
  An outside world in which the paths \<^verbatim>\<open>notes.txt\<close> and \<^verbatim>\<open>survey.DOC\<close> have the
  suffixes \<^verbatim>\<open>.txt\<close> and \<^verbatim>\<open>.DOC\<close> and every other path the suffix \<^verbatim>\<open>.pdf\<close>; every
  file can be read and the service answers with a text that the reader turns into
  the rows \<open>csv_rows_ex\<close>.
\<close>

definition env_ex :: environment where
  "env_ex =
     \<lparr>path_suffix = (\<lambda>p. if p = ''notes.txt'' then ''.txt''
                          else if p = ''survey.DOC'' then ''.DOC'' else ''.pdf''),
      path_stem = (\<lambda>p. ''file''),
      read_docx = (\<lambda>p. Inr []),
      read_base64 = (\<lambda>p. Inr ''QUJD''),
      messages_create = (\<lambda>blocks. Inr ''answer''),
      write_text = (\<lambda>name content. Inr ()),
      dict_reader = (\<lambda>csv_text. csv_rows_ex),
      to_int = to_int_ex,
      scoring_prompt = ''PROMPT''\<rparr>"

section \<open>The metrics calculator on complete questions\<close>


lemma question_keys_complete:
  "list_all complete_question qs \<Longrightarrow> question_keys qs = Inr (map match_key qs)"
  by (induction qs) (auto simp: complete_question_def match_key_def and_then_def)

lemma find_pred_complete:
  "list_all complete_question qs \<Longrightarrow> find_pred k qs = Inr (find (\<lambda>p. match_key p = k) qs)"
  by (induction qs) (auto simp: complete_question_def match_key_def and_then_def)

lemma attr_field_complete:
  "complete_question q \<Longrightarrow> attr_field a q = Some (score a q)"
  by (cases a) (auto simp: complete_question_def score_def)

lemma find_complete:
  "list_all complete_question qs \<Longrightarrow> find P qs = Some q \<Longrightarrow> complete_question q"
  by (induction qs) (auto split: if_splits)

lemma matched_pairs_Nil: "matched_pairs pqs [] = []"
  by (simp add: matched_pairs_def List.map_filter_simps)

lemma matched_pairs_Cons:
  "matched_pairs pqs (e # eqs) =
     (case first_match pqs e of None \<Rightarrow> matched_pairs pqs eqs
      | Some p \<Rightarrow> (p, e) # matched_pairs pqs eqs)"
  by (simp add: matched_pairs_def List.map_filter_simps split: option.splits)

lemma collect_errors_complete:
  "list_all complete_question pqs \<Longrightarrow> list_all complete_question eqs \<Longrightarrow>
   collect_errors a pqs eqs errors within_1 =
     Inr (errors @ map (abs_error a) (matched_pairs pqs eqs),
          within_1 @ map (\<lambda>pe. abs_error a pe \<le> 1) (matched_pairs pqs eqs))"
proof (induction eqs arbitrary: errors within_1)
  case Nil
  then show ?case by (simp add: matched_pairs_Nil)
next
  case (Cons e eqs)
  from Cons.prems have ce: "complete_question e" and ces: "list_all complete_question eqs"
    by simp_all
  from ce obtain t where t: "question_text e = Some t"
    by (auto simp: complete_question_def)
  have key: "normalize_text t = match_key e" using t by (simp add: match_key_def)
  show ?case
  proof (cases "first_match pqs e")
    case None
    then show ?thesis
      using Cons.IH [OF Cons.prems(1) ces] t key Cons.prems(1)
      by (simp add: and_then_def find_pred_complete first_match_def matched_pairs_Cons)
  next
    case (Some p)
    then have cp: "complete_question p"
      using find_complete [OF Cons.prems(1)] by (simp add: first_match_def)
    show ?thesis
      using Cons.IH [OF Cons.prems(1) ces] t key Cons.prems(1) Some
        attr_field_complete [OF cp, of a] attr_field_complete [OF ce, of a]
      by (simp add: and_then_def find_pred_complete first_match_def matched_pairs_Cons
            abs_error_def Let_def)
  qed
qed

lemma score_attributes_complete:
  assumes "list_all complete_question pqs" and "list_all complete_question eqs"
  shows "score_attributes attributes pqs eqs
           \<lparr>extraction_accuracy = x, score_mae = [], score_within_1 = [], section_detection = y\<rparr> =
         Inr \<lparr>extraction_accuracy = x,
              score_mae = map (\<lambda>a. (a, mean_errors (map (abs_error a) (matched_pairs pqs eqs)))) attributes,
              score_within_1 = map (\<lambda>a. (a, mean_bools (map (\<lambda>pe. abs_error a pe \<le> 1) (matched_pairs pqs eqs)))) attributes,
              section_detection = y\<rparr>"
  by (simp add: attributes_def and_then_def collect_errors_complete [OF assms])

lemma share_found_set:
  "(if card (set es) > 0 then real (card (set ps \<inter> set es)) / real (card (set es)) else 0) =
   share_found (set ps) (set es)"
  by (auto simp: share_found_def card_gt_0_iff)

lemma calculate_eval_metrics_complete:
  assumes "questions predicted = Some pqs" and "questions expected = Some eqs"
    and "list_all complete_question pqs" and "list_all complete_question eqs"
    and "section_averages predicted \<noteq> None"
  shows "calculate_eval_metrics predicted expected =
         Inr \<lparr>extraction_accuracy = share_found (key_set pqs) (key_set eqs),
              score_mae = map (\<lambda>a. (a, mean_errors (map (abs_error a) (matched_pairs pqs eqs)))) attributes,
              score_within_1 = map (\<lambda>a. (a, mean_bools (map (\<lambda>pe. abs_error a pe \<le> 1) (matched_pairs pqs eqs)))) attributes,
              section_detection =
                share_found (section_names (section_averages predicted))
                  (section_names (section_averages expected))\<rparr>"
proof -
  from assms(5) obtain pavgs where pavgs: "section_averages predicted = Some pavgs" by auto
  have acc: "(if card (set (map match_key eqs)) > 0
              then \<lparr>extraction_accuracy = 0, score_mae = [], score_within_1 = [], section_detection = 0\<rparr>
                   \<lparr>extraction_accuracy := real (card (set (map match_key pqs) \<inter> set (map match_key eqs)))
                       / real (card (set (map match_key eqs)))\<rparr>
              else \<lparr>extraction_accuracy = 0, score_mae = [], score_within_1 = [], section_detection = 0\<rparr>) =
             \<lparr>extraction_accuracy = share_found (key_set pqs) (key_set eqs), score_mae = [],
              score_within_1 = [], section_detection = (0::real)\<rparr>"
    unfolding key_set_def share_found_set [symmetric] by simp
  have det: "detect_sections predicted expected
               \<lparr>extraction_accuracy = x, score_mae = ms, score_within_1 = ws, section_detection = 0\<rparr> =
             Inr \<lparr>extraction_accuracy = x, score_mae = ms, score_within_1 = ws,
                  section_detection = share_found (section_names (section_averages predicted))
                    (section_names (section_averages expected))\<rparr>" for x ms ws
    unfolding detect_sections_def
    by (cases "section_averages expected")
       (auto simp: pavgs section_names_def share_found_def and_then_def Let_def card_gt_0_iff)
  show ?thesis
    unfolding calculate_eval_metrics_def Let_def
    by (simp only: assms(1) assms(2) getitem.simps and_then_def sum.case
          question_keys_complete [OF assms(3)] question_keys_complete [OF assms(4)]
          acc score_attributes_complete [OF assms(3,4)] det)
qed


lemma mean_errors_pairs:
  "mean_errors (map (abs_error a) pairs) = mean_abs_error a pairs"
  by (simp add: mean_errors_def mean_abs_error_def)

lemma count_true:
  "sum_list (map ((\<lambda>b. if b then 1 else 0) \<circ> P) xs) = length (filter P xs)"
  by (induction xs) simp_all

lemma mean_bools_pairs:
  "mean_bools (map (\<lambda>pe. abs_error a pe \<le> 1) pairs) = fraction_within_1 a pairs"
  by (simp add: mean_bools_def fraction_within_1_def count_true)

lemma map_of_attributes:
  "map_of (map (\<lambda>a. (a, f a)) attributes) a = Some (f a)"
  by (cases a) (simp_all add: attributes_def)

lemma share_found_bounds:
  assumes "finite E"
  shows "0 \<le> share_found P E" and "share_found P E \<le> 1"
proof -
  show "0 \<le> share_found P E" by (simp add: share_found_def)
  have "card (P \<inter> E) \<le> card E" using assms by (simp add: card_mono)
  then show "share_found P E \<le> 1"
    using assms by (simp add: share_found_def divide_le_eq_1 card_gt_0_iff)
qed

lemma fraction_within_1_bounds:
  "0 \<le> fraction_within_1 a pairs" and "fraction_within_1 a pairs \<le> 1"
  by (simp_all add: fraction_within_1_def divide_le_eq_1)

lemma mean_abs_error_nonneg: "0 \<le> mean_abs_error a pairs"
proof -
  have "0 \<le> sum_list (map (abs_error a) pairs)"
    by (rule sum_list_nonneg) (auto simp: abs_error_def)
  then show ?thesis by (simp add: mean_abs_error_def)
qed

lemma ex_pred_complete: "list_all complete_question pred_questions_ex"
  by code_simp

lemma ex_exp_complete: "list_all complete_question exp_questions_ex"
  by code_simp

lemma ex_pairs:
  "matched_pairs pred_questions_ex exp_questions_ex =
     [(mk_question ''A'' ''age? '' 1 4 5 5 3, mk_question ''A'' ''Age?'' 1 5 5 5 5),
      (mk_question ''B'' '' JOB?'' 1 2 4 3 1, mk_question ''C'' ''Job?'' 1 5 4 1 2)]"
  by code_simp

lemma ex_mae_clarity:
  "mean_abs_error Clarity (matched_pairs pred_questions_ex exp_questions_ex) = 2"
  by code_simp

lemma ex_within_1_clarity:
  "fraction_within_1 Clarity (matched_pairs pred_questions_ex exp_questions_ex) = 1 / 2"
  by code_simp

lemma ex_keys:
  "share_found (key_set pred_questions_ex) (key_set exp_questions_ex) = 2 / 3"
  by code_simp

lemma ex_sections:
  "share_found (section_names (section_averages predicted_ex))
     (section_names (section_averages expected_ex)) = 1 / 2"
  by code_simp

section \<open>The metrics calculator: the claims\<close>

text \<open>
  C2. For a predicted result and an expected output whose questions are complete, and
  for each of the four attributes, the calculator returns metrics, and
  \<open>score_mae[attr]\<close> is the mean of \<open>|predicted value - expected value|\<close> over the
  matched pairs: the expected questions in their order, each paired with the first
  predicted question whose text is the same after trimming and lowercasing, an expected
  question without such a predicted question being left out. It is 0 when no pair
  matched.
\<close>

theorem score_mae_over_matched_pairs:
  assumes "questions predicted = Some pqs" and "questions expected = Some eqs"
    and "list_all complete_question pqs" and "list_all complete_question eqs"
    and "section_averages predicted \<noteq> None"
  shows "\<exists>m. calculate_eval_metrics predicted expected = Inr m \<and>
           map_of (score_mae m) a = Some (mean_abs_error a (matched_pairs pqs eqs)) \<and>
           (matched_pairs pqs eqs = [] \<longrightarrow> map_of (score_mae m) a = Some 0)"
  by (simp add: calculate_eval_metrics_complete [OF assms] map_of_attributes
        mean_errors_pairs mean_abs_error_def)

theorem score_mae_over_matched_pairs_witness:
  "questions predicted_ex = Some pred_questions_ex \<and>
   questions expected_ex = Some exp_questions_ex \<and>
   list_all complete_question pred_questions_ex \<and>
   list_all complete_question exp_questions_ex \<and>
   section_averages predicted_ex \<noteq> None \<and>
   (\<exists>m. calculate_eval_metrics predicted_ex expected_ex = Inr m \<and>
        map_of (score_mae m) Clarity = Some 2)"
proof -
  have q: "questions predicted_ex = Some pred_questions_ex"
    "questions expected_ex = Some exp_questions_ex"
    "section_averages predicted_ex \<noteq> None"
    by (simp_all add: predicted_ex_def expected_ex_def)
  show ?thesis
    using score_mae_over_matched_pairs
      [OF q(1) q(2) ex_pred_complete ex_exp_complete q(3), of Clarity]
    by (auto simp: q ex_pred_complete ex_exp_complete ex_mae_clarity)
qed

text \<open>
  C3. \<open>extraction_accuracy\<close> is the size of the intersection of the two sets of
  question texts, trimmed and in lower case, divided by the size of the expected set;
  membership in the intersection is equality of the normalized texts. It is 0 when the
  expected set is empty, and it lies between 0 and 1.
\<close>

theorem extraction_accuracy_is_share_of_expected_keys:
  assumes "questions predicted = Some pqs" and "questions expected = Some eqs"
    and "list_all complete_question pqs" and "list_all complete_question eqs"
    and "section_averages predicted \<noteq> None"
  shows "\<exists>m. calculate_eval_metrics predicted expected = Inr m \<and>
           extraction_accuracy m =
             (if key_set eqs = {} then 0
              else real (card (key_set pqs \<inter> key_set eqs)) / real (card (key_set eqs))) \<and>
           0 \<le> extraction_accuracy m \<and> extraction_accuracy m \<le> 1"
proof -
  have "finite (key_set eqs)" by (simp add: key_set_def)
  then show ?thesis
    using share_found_bounds [of "key_set eqs" "key_set pqs"]
    by (simp add: calculate_eval_metrics_complete [OF assms] share_found_def)
qed

theorem extraction_accuracy_is_share_of_expected_keys_witness:
  "questions predicted_ex = Some pred_questions_ex \<and>
   questions expected_ex = Some exp_questions_ex \<and>
   list_all complete_question pred_questions_ex \<and>
   list_all complete_question exp_questions_ex \<and>
   section_averages predicted_ex \<noteq> None \<and>
   (\<exists>m. calculate_eval_metrics predicted_ex expected_ex = Inr m \<and>
        extraction_accuracy m = 2 / 3)"
proof -
  have q: "questions predicted_ex = Some pred_questions_ex"
    "questions expected_ex = Some exp_questions_ex"
    "section_averages predicted_ex \<noteq> None"
    by (simp_all add: predicted_ex_def expected_ex_def)
  have k: "(if key_set exp_questions_ex = {} then 0
            else real (card (key_set pred_questions_ex \<inter> key_set exp_questions_ex))
                 / real (card (key_set exp_questions_ex))) = 2 / 3"
    using ex_keys by (simp add: share_found_def)
  show ?thesis
    using extraction_accuracy_is_share_of_expected_keys
      [OF q(1) q(2) ex_pred_complete ex_exp_complete q(3)]
    unfolding k
    by (auto simp: q ex_pred_complete ex_exp_complete)
qed

text \<open>
  C5. \<open>score_within_1[attr]\<close> is the fraction of the matched pairs, the same pairs as
  for the mean absolute error, whose absolute difference is at most 1. It is 0 when no
  pair matched, and it lies between 0 and 1.
\<close>

theorem score_within_1_is_fraction_of_matched_pairs:
  assumes "questions predicted = Some pqs" and "questions expected = Some eqs"
    and "list_all complete_question pqs" and "list_all complete_question eqs"
    and "section_averages predicted \<noteq> None"
  shows "\<exists>m. calculate_eval_metrics predicted expected = Inr m \<and>
           map_of (score_within_1 m) a = Some (fraction_within_1 a (matched_pairs pqs eqs)) \<and>
           (matched_pairs pqs eqs = [] \<longrightarrow> map_of (score_within_1 m) a = Some 0) \<and>
           0 \<le> fraction_within_1 a (matched_pairs pqs eqs) \<and>
           fraction_within_1 a (matched_pairs pqs eqs) \<le> 1"
  using fraction_within_1_bounds [of a "matched_pairs pqs eqs"]
  by (simp add: calculate_eval_metrics_complete [OF assms] map_of_attributes
        mean_bools_pairs)
     (simp add: fraction_within_1_def)

theorem score_within_1_is_fraction_of_matched_pairs_witness:
  "questions predicted_ex = Some pred_questions_ex \<and>
   questions expected_ex = Some exp_questions_ex \<and>
   list_all complete_question pred_questions_ex \<and>
   list_all complete_question exp_questions_ex \<and>
   section_averages predicted_ex \<noteq> None \<and>
   (\<exists>m. calculate_eval_metrics predicted_ex expected_ex = Inr m \<and>
        map_of (score_within_1 m) Clarity = Some (1 / 2))"
proof -
  have q: "questions predicted_ex = Some pred_questions_ex"
    "questions expected_ex = Some exp_questions_ex"
    "section_averages predicted_ex \<noteq> None"
    by (simp_all add: predicted_ex_def expected_ex_def)
  show ?thesis
    using score_within_1_is_fraction_of_matched_pairs
      [OF q(1) q(2) ex_pred_complete ex_exp_complete q(3), of Clarity]
    by (auto simp: q ex_pred_complete ex_exp_complete ex_within_1_clarity)
qed

text \<open>
  C6. \<open>section_detection\<close> is the size of the intersection of the predicted and the
  expected sets of section names divided by the size of the expected set, and it is 0
  when the expected output declares no sections: when it has no section averages, or
  an empty dictionary of them.
\<close>

theorem section_detection_is_share_of_expected_sections:
  assumes "questions predicted = Some pqs" and "questions expected = Some eqs"
    and "list_all complete_question pqs" and "list_all complete_question eqs"
    and "section_averages predicted \<noteq> None"
  shows "\<exists>m. calculate_eval_metrics predicted expected = Inr m \<and>
           section_detection m =
             (if section_names (section_averages expected) = {} then 0
              else real (card (section_names (section_averages predicted)
                                 \<inter> section_names (section_averages expected)))
                   / real (card (section_names (section_averages expected)))) \<and>
           (section_averages expected = None \<or> section_averages expected = Some []
              \<longrightarrow> section_detection m = 0)"
  by (auto simp: calculate_eval_metrics_complete [OF assms] share_found_def section_names_def)

theorem section_detection_is_share_of_expected_sections_witness:
  "questions predicted_ex = Some pred_questions_ex \<and>
   questions expected_ex = Some exp_questions_ex \<and>
   list_all complete_question pred_questions_ex \<and>
   list_all complete_question exp_questions_ex \<and>
   section_averages predicted_ex \<noteq> None \<and>
   (\<exists>m. calculate_eval_metrics predicted_ex expected_ex = Inr m \<and>
        section_detection m = 1 / 2)"
proof -
  have q: "questions predicted_ex = Some pred_questions_ex"
    "questions expected_ex = Some exp_questions_ex"
    "section_averages predicted_ex \<noteq> None"
    by (simp_all add: predicted_ex_def expected_ex_def)
  have k: "(if section_names (section_averages expected_ex) = {} then 0
            else real (card (section_names (section_averages predicted_ex)
                               \<inter> section_names (section_averages expected_ex)))
                 / real (card (section_names (section_averages expected_ex)))) = 1 / 2"
    using ex_sections by (simp add: share_found_def)
  show ?thesis
    using section_detection_is_share_of_expected_sections
      [OF q(1) q(2) ex_pred_complete ex_exp_complete q(3)]
    unfolding k
    by (auto simp: q ex_pred_complete ex_exp_complete)
qed

section \<open>The threshold gate: the claims\<close>

lemma threshold_checks_table:
  assumes "\<forall>(metric, threshold, d) \<in> set table. \<forall>actual.
             (if endswith metric ''_mae'' then actual \<le> threshold else actual \<ge> threshold)
               = check_passes d actual threshold"
  shows "threshold_checks (map (\<lambda>(metric, threshold, d). (metric, threshold)) table) means b =
         (b \<and> list_all (\<lambda>c. c) (evaluated_checks table means))"
  using assms
proof (induction table arbitrary: b)
  case Nil
  then show ?case by (simp add: evaluated_checks_def List.map_filter_simps)
next
  case (Cons x table)
  obtain metric threshold d where x: "x = (metric, threshold, d)" by (cases x) auto
  have ih: "threshold_checks (map (\<lambda>(metric, threshold, d). (metric, threshold)) table) means c =
            (c \<and> list_all (\<lambda>c. c) (evaluated_checks table means))" for c
    using Cons by simp
  have dir: "(if endswith metric ''_mae'' then actual \<le> threshold else actual \<ge> threshold)
               = check_passes d actual threshold" for actual
    using Cons.prems x by simp
  have ev: "evaluated_checks ((metric, threshold, d) # table) means =
            (case means metric of None \<Rightarrow> evaluated_checks table means
             | Some actual \<Rightarrow> check_passes d actual threshold # evaluated_checks table means)"
    by (simp add: evaluated_checks_def List.map_filter_simps split: option.splits)
  show ?case
  proof (cases "means metric")
    case None
    then show ?thesis by (simp add: x ih ev)
  next
    case (Some actual)
    then show ?thesis using dir [of actual] by (auto simp: x ih ev Let_def)
  qed
qed

lemma threshold_table_directions:
  "\<forall>(metric, threshold, d) \<in> set threshold_table. \<forall>actual.
     (if endswith metric ''_mae'' then actual \<le> threshold else actual \<ge> threshold)
       = check_passes d actual threshold"
  by (simp add: threshold_table_def endswith_def)

lemma threshold_table_THRESHOLDS:
  "map (\<lambda>(metric, threshold, d). (metric, threshold)) threshold_table = THRESHOLDS"
  by (simp add: threshold_table_def THRESHOLDS_def)

lemma gate_evaluated_checks:
  "threshold_checks THRESHOLDS means True = list_all (\<lambda>c. c) (evaluated_checks threshold_table means)"
  using threshold_checks_table [OF threshold_table_directions, of means True]
  by (simp add: threshold_table_THRESHOLDS)

text \<open>
  C1. The table that the gate goes through is the fixed table of nine thresholds: the
  metrics and thresholds of the code are those of the table, a metric of direction
  lower-is-better passes exactly when its mean is at most its threshold and a metric of
  direction higher-is-better exactly when its mean is at least its threshold, so that a
  mean equal to the threshold passes; and for every table of means the verdict is the
  conjunction of the checks evaluated, one for each of the nine metrics that has a mean.
\<close>

theorem gate_verdict_is_conjunction_of_nine_checks:
  "map (\<lambda>(metric, threshold, d). (metric, threshold)) threshold_table = THRESHOLDS \<and>
   length THRESHOLDS = 9 \<and>
   threshold_checks THRESHOLDS means True
     = list_all (\<lambda>c. c) (evaluated_checks threshold_table means) \<and>
   (\<forall>(metric, threshold, d) \<in> set threshold_table.
      threshold_checks [(metric, threshold)] (Map.empty(metric \<mapsto> actual)) True
        = check_passes d actual threshold \<and>
      threshold_checks [(metric, threshold)] (Map.empty(metric \<mapsto> threshold)) True)"
proof -
  have single: "threshold_checks [(metric, threshold)] (Map.empty(metric \<mapsto> x)) True
                  = check_passes d x threshold"
    if "(metric, threshold, d) \<in> set threshold_table" for metric threshold d x
  proof -
    have "(if endswith metric ''_mae'' then x \<le> threshold else x \<ge> threshold)
            = check_passes d x threshold"
      using threshold_table_directions that by blast
    then show ?thesis by (simp add: Let_def)
  qed
  have refl: "check_passes d threshold threshold" for d threshold
    by (cases d) simp_all
  show ?thesis
    using single refl
    by (auto simp: threshold_table_THRESHOLDS gate_evaluated_checks)
       (simp add: THRESHOLDS_def)
qed

theorem gate_verdict_is_conjunction_of_nine_checks_witness:
  "threshold_checks THRESHOLDS boundary_means True \<and>
   evaluated_checks threshold_table boundary_means
     = [True, True, True, True, True, True, True, True, True]"
proof -
  have e: "evaluated_checks threshold_table boundary_means
             = [True, True, True, True, True, True, True, True, True]"
    by (simp add: evaluated_checks_def threshold_table_def boundary_means_def THRESHOLDS_def
          List.map_filter_simps)
  show ?thesis
    using gate_verdict_is_conjunction_of_nine_checks [of boundary_means]
    by (simp add: e)
qed

lemma threshold_checks_means_cong:
  assumes "\<forall>(metric, threshold) \<in> set ts. means metric = means' metric"
  shows "threshold_checks ts means b = threshold_checks ts means' b"
  using assms
proof (induction ts arbitrary: b)
  case Nil
  then show ?case by simp
next
  case (Cons x ts)
  obtain metric threshold where x: "x = (metric, threshold)" by (cases x)
  from Cons.prems have same: "means metric = means' metric"
    and rest: "\<forall>(metric, threshold) \<in> set ts. means metric = means' metric"
    by (simp_all add: x)
  show ?case
    using Cons.IH [OF rest] same
    by (simp add: x split: option.splits)
qed

lemma threshold_checks_no_means:
  assumes "\<forall>(metric, threshold) \<in> set ts. means metric = None"
  shows "threshold_checks ts means b = b"
  using assms by (induction ts arbitrary: b) auto

lemma df_column_populated:
  "df_column rows col = map (\<lambda>r. the (map_of r col)) (populated rows col)"
  by (induction rows) (auto simp: df_column_def populated_def List.map_filter_simps)

lemma error_only_no_metric:
  assumes "error_only r" and "col \<noteq> ''eval_id''" and "col \<noteq> ''error''"
  shows "map_of r col = None"
proof -
  have "col \<notin> fst ` set r"
    using assms by (auto simp: error_only_def list_all_iff)
  then show ?thesis by (simp add: map_of_eq_None_iff)
qed

lemma df_column_without_error_rows:
  assumes "col \<noteq> ''eval_id''" and "col \<noteq> ''error''"
  shows "df_column (filter (\<lambda>r. \<not> error_only r) rows) col = df_column rows col"
  by (induction rows)
     (auto simp: df_column_def List.map_filter_simps error_only_no_metric [OF _ assms]
        split: option.splits)

lemma df_means_without_error_rows:
  assumes "col \<noteq> ''eval_id''" and "col \<noteq> ''error''"
  shows "df_means (filter (\<lambda>r. \<not> error_only r) rows) col = df_means rows col"
  by (simp add: df_means_def df_column_without_error_rows [OF assms])

lemma THRESHOLDS_metric_columns:
  "\<forall>(metric, threshold) \<in> set THRESHOLDS. metric \<noteq> ''eval_id'' \<and> metric \<noteq> ''error''"
  by (simp add: THRESHOLDS_def)

lemma df_means_error_only_rows:
  assumes "list_all error_only rows" and "col \<noteq> ''eval_id''" and "col \<noteq> ''error''"
  shows "df_means rows col = None"
proof -
  have "filter (\<lambda>r. \<not> error_only r) rows = []"
    using assms(1) by (induction rows) auto
  then have "df_means rows col = df_means [] col"
    using df_means_without_error_rows [OF assms(2,3), of rows] by simp
  then show ?thesis by (simp add: df_means_def df_column_def List.map_filter_simps)
qed

text \<open>
  C7. The mean of a column is taken over the rows in which the column is populated:
  a column that is populated in some row and numeric has a mean, the sum of its values
  divided by the number of the rows that have one, and no other column has a mean. So
  the rows with no other field than \<open>eval_id\<close> and \<open>error\<close> change no mean of another
  column and never the verdict: they are not counted as zeros. A threshold whose metric
  has no mean is skipped, the verdict being the conjunction of the checks of the metrics
  that have one; in particular the verdict is a pass when no metric of the table has a
  mean, as for rows that are all error rows.
\<close>

theorem means_skip_error_rows_and_absent_metrics_pass:
  "(populated rows col \<noteq> [] \<and> numeric_column rows col \<longrightarrow>
      df_means rows col =
        Some (sum_list (populated_values rows col) / real (length (populated rows col)))) \<and>
   (populated rows col = [] \<or> \<not> numeric_column rows col \<longrightarrow> df_means rows col = None) \<and>
   (\<forall>mean. df_means rows col = Some mean \<longrightarrow>
      populated rows col \<noteq> [] \<and>
      mean = sum_list (populated_values rows col) / real (length (populated rows col))) \<and>
   (col \<noteq> ''eval_id'' \<and> col \<noteq> ''error'' \<longrightarrow>
      df_means (filter (\<lambda>r. \<not> error_only r) rows) col = df_means rows col) \<and>
   check_pass_fail (filter (\<lambda>r. \<not> error_only r) rows) = check_pass_fail rows \<and>
   check_pass_fail rows = list_all (\<lambda>c. c) (evaluated_checks threshold_table (df_means rows)) \<and>
   ((\<forall>(metric, threshold) \<in> set THRESHOLDS. df_means rows metric = None) \<longrightarrow> check_pass_fail rows) \<and>
   (list_all error_only rows \<longrightarrow> check_pass_fail rows)"
proof -
  have char: "df_means rows col =
      (if populated rows col \<noteq> [] \<and> numeric_column rows col
       then Some (sum_list (populated_values rows col) / real (length (populated rows col)))
       else None)"
    by (simp add: df_means_def Let_def df_column_populated populated_values_def
          numeric_column_def comp_def list_all_iff)
  have some: "df_means rows col =
      Some (sum_list (populated_values rows col) / real (length (populated rows col)))"
    if "populated rows col \<noteq> []" and "numeric_column rows col"
    using that by (simp add: char)
  have no_mean: "df_means rows col = None"
    if "populated rows col = [] \<or> \<not> numeric_column rows col"
    using that by (auto simp: char)
  have mean: "populated rows col \<noteq> [] \<and>
      mean = sum_list (populated_values rows col) / real (length (populated rows col))"
    if "df_means rows col = Some mean" for mean
    using that by (simp add: char split: if_splits)
  have same: "\<forall>(metric, threshold) \<in> set THRESHOLDS.
      df_means (filter (\<lambda>r. \<not> error_only r) rows) metric = df_means rows metric"
    using THRESHOLDS_metric_columns df_means_without_error_rows by fastforce
  have verdict: "check_pass_fail (filter (\<lambda>r. \<not> error_only r) rows) = check_pass_fail rows"
    unfolding check_pass_fail_def by (rule threshold_checks_means_cong [OF same])
  have none: "check_pass_fail rows"
    if "\<forall>(metric, threshold) \<in> set THRESHOLDS. df_means rows metric = None"
    unfolding check_pass_fail_def using threshold_checks_no_means [OF that] by simp
  have errs: "check_pass_fail rows" if "list_all error_only rows"
  proof -
    have "\<forall>(metric, threshold) \<in> set THRESHOLDS. df_means rows metric = None"
      using THRESHOLDS_metric_columns df_means_error_only_rows [OF that] by fastforce
    then show ?thesis by (rule none)
  qed
  have skip: "col \<noteq> ''eval_id'' \<and> col \<noteq> ''error'' \<longrightarrow>
      df_means (filter (\<lambda>r. \<not> error_only r) rows) col = df_means rows col"
    by (simp add: df_means_without_error_rows)
  have gate: "check_pass_fail rows
      = list_all (\<lambda>c. c) (evaluated_checks threshold_table (df_means rows))"
    by (simp add: check_pass_fail_def gate_evaluated_checks)
  have c1: "populated rows col \<noteq> [] \<and> numeric_column rows col \<longrightarrow>
      df_means rows col =
        Some (sum_list (populated_values rows col) / real (length (populated rows col)))"
    using some by simp
  have c2: "populated rows col = [] \<or> \<not> numeric_column rows col \<longrightarrow> df_means rows col = None"
    using no_mean by (rule impI)
  have c3: "\<forall>mean. df_means rows col = Some mean \<longrightarrow>
      populated rows col \<noteq> [] \<and>
      mean = sum_list (populated_values rows col) / real (length (populated rows col))"
    using mean by (intro allI impI)
  have c7: "(\<forall>(metric, threshold) \<in> set THRESHOLDS. df_means rows metric = None)
      \<longrightarrow> check_pass_fail rows"
    using none by (rule impI)
  have c8: "list_all error_only rows \<longrightarrow> check_pass_fail rows"
    using errs by (rule impI)
  show ?thesis
    by (intro conjI) (fact c1, fact c2, fact c3, fact skip, fact verdict, fact gate, fact c7, fact c8)
qed

lemma ex_rows_populated:
  "populated rows_ex ''clarity_mae'' = [rows_ex ! 0, rows_ex ! 2]"
  by code_simp

lemma ex_rows_numeric: "numeric_column rows_ex ''clarity_mae''"
  by code_simp

lemma ex_rows_values: "populated_values rows_ex ''clarity_mae'' = [0.9, 0.3]"
  by code_simp

lemma ex_rows_verdict: "\<not> check_pass_fail rows_ex"
  by code_simp

lemma ex_rows_error_only:
  "filter (\<lambda>r. \<not> error_only r) rows_ex = [rows_ex ! 0, rows_ex ! 2]"
  "list_all error_only [rows_ex ! 1]"
  by code_simp+

theorem means_skip_error_rows_and_absent_metrics_pass_witness:
  "populated rows_ex ''clarity_mae'' = [rows_ex ! 0, rows_ex ! 2] \<and>
   numeric_column rows_ex ''clarity_mae'' \<and>
   df_means rows_ex ''clarity_mae'' = Some 0.6 \<and>
   df_means [rows_ex ! 0, rows_ex ! 2] ''clarity_mae'' = Some 0.6 \<and>
   df_means rows_ex ''error'' = None \<and>
   \<not> check_pass_fail rows_ex \<and> \<not> check_pass_fail [rows_ex ! 0, rows_ex ! 2] \<and>
   list_all error_only [rows_ex ! 1] \<and> check_pass_fail [rows_ex ! 1]"
proof -
  note first = means_skip_error_rows_and_absent_metrics_pass [of rows_ex "''clarity_mae''"]
  note second = means_skip_error_rows_and_absent_metrics_pass [of "[rows_ex ! 1]" "''clarity_mae''"]
  note third = means_skip_error_rows_and_absent_metrics_pass [of rows_ex "''error''"]
  have pop: "populated rows_ex ''clarity_mae'' \<noteq> []"
    by (simp add: ex_rows_populated)
  have "df_means rows_ex ''clarity_mae'' =
          Some (sum_list (populated_values rows_ex ''clarity_mae'')
                  / real (length (populated rows_ex ''clarity_mae'')))"
    by (rule mp [OF first [THEN conjunct1] conjI [OF pop ex_rows_numeric]])
  then have m: "df_means rows_ex ''clarity_mae'' = Some 0.6"
    by (simp add: ex_rows_values ex_rows_populated)
  have c: "''clarity_mae'' \<noteq> ''eval_id'' \<and> ''clarity_mae'' \<noteq> ''error''" by simp
  have "df_means (filter (\<lambda>r. \<not> error_only r) rows_ex) ''clarity_mae''
          = df_means rows_ex ''clarity_mae''"
    by (rule mp [OF first [THEN conjunct2, THEN conjunct2, THEN conjunct2, THEN conjunct1] c])
  then have m': "df_means [rows_ex ! 0, rows_ex ! 2] ''clarity_mae'' = Some 0.6"
    by (simp only: ex_rows_error_only(1) m)
  have nn: "\<not> numeric_column rows_ex ''error''" by code_simp
  have n: "df_means rows_ex ''error'' = None"
    by (rule mp [OF third [THEN conjunct2, THEN conjunct1] disjI2 [OF nn]])
  have "check_pass_fail (filter (\<lambda>r. \<not> error_only r) rows_ex) = check_pass_fail rows_ex"
    by (rule first [THEN conjunct2, THEN conjunct2, THEN conjunct2, THEN conjunct2, THEN conjunct1])
  then have v: "\<not> check_pass_fail [rows_ex ! 0, rows_ex ! 2]"
    by (simp only: ex_rows_error_only(1) ex_rows_verdict not_False_eq_True)
  have p: "check_pass_fail [rows_ex ! 1]"
    by (rule mp [OF second [THEN conjunct2, THEN conjunct2, THEN conjunct2, THEN conjunct2,
                   THEN conjunct2, THEN conjunct2, THEN conjunct2] ex_rows_error_only(2)])
  show ?thesis
    by (intro conjI)
       (fact ex_rows_populated, fact ex_rows_numeric, fact m, fact m', fact n,
        fact ex_rows_verdict, fact v, fact ex_rows_error_only(2), fact p)
qed

section \<open>The eval runner: the claims\<close>

lemma run_evals_loop_append:
  "run_evals_loop sd s (xs @ ys) results =
     (case run_evals_loop sd s xs results of
        (Inl e, s') \<Rightarrow> (Inl e, s')
      | (Inr rs, s') \<Rightarrow> run_evals_loop sd s' ys rs)"
proof (induction xs arbitrary: s results)
  case Nil
  then show ?case by simp
next
  case (Cons c xs)
  show ?case
  proof (cases "case_id c")
    case None
    then show ?thesis by simp
  next
    case (Some eval_id)
    obtain r s1 where r: "run_case sd s c eval_id = (r, s1)" by (cases "run_case sd s c eval_id")
    show ?thesis
      by (cases r) (simp_all add: Some r Cons.IH)
  qed
qed

text \<open>The row that one case contributes, and the state of the scorer after it.\<close>

lemma run_evals_loop_Cons:
  assumes "case_id c = Some eval_id"
  shows "run_evals_loop sd s (c # cs) results =
         run_evals_loop sd (snd (run_case sd s c eval_id)) cs
           (results @ [case fst (run_case sd s c eval_id) of
                         Inr result \<Rightarrow> result | Inl e \<Rightarrow> error_row eval_id e])"
proof -
  obtain r s1 where r: "run_case sd s c eval_id = (r, s1)" by (cases "run_case sd s c eval_id")
  show ?thesis by (cases r) (simp_all add: assms r)
qed

lemma run_evals_loop_total:
  assumes "list_all (\<lambda>c. case_id c \<noteq> None) cs"
  shows "\<exists>rows s'. run_evals_loop sd s cs results = (Inr (results @ rows), s') \<and>
           length rows = length cs"
  using assms
proof (induction cs arbitrary: s results)
  case Nil
  then show ?case by simp
next
  case (Cons c cs)
  from Cons.prems obtain eval_id where eval_id: "case_id c = Some eval_id"
    and rest: "list_all (\<lambda>c. case_id c \<noteq> None) cs"
    by auto
  let ?row = "case fst (run_case sd s c eval_id) of
                Inr result \<Rightarrow> result | Inl e \<Rightarrow> error_row eval_id e"
  let ?s1 = "snd (run_case sd s c eval_id)"
  from Cons.IH [OF rest, of ?s1 "results @ [?row]"]
  obtain rows s' where rows:
    "run_evals_loop sd ?s1 cs (results @ [?row]) = (Inr ((results @ [?row]) @ rows), s')"
    "length rows = length cs"
    by blast
  have "run_evals_loop sd s (c # cs) results = run_evals_loop sd ?s1 cs (results @ [?row])"
    by (rule run_evals_loop_Cons [OF eval_id])
  then have "run_evals_loop sd s (c # cs) results = (Inr (results @ (?row # rows)), s')"
    using rows(1) by simp
  then show ?case using rows(2) by (intro exI [of _ "?row # rows"] exI [of _ s']) simp
qed

lemma run_evals_row_at:
  assumes "list_all (\<lambda>c. case_id c \<noteq> None) (pre @ c # post)"
  shows "\<exists>rows s'. run_evals sd s (pre @ c # post) = (Inr rows, s') \<and>
           length rows = length (pre @ c # post) \<and>
           rows ! length pre =
             (case fst (run_case sd (snd (run_evals sd s pre)) c (the (case_id c))) of
                Inr result \<Rightarrow> result | Inl e \<Rightarrow> error_row (the (case_id c)) e)"
proof -
  from assms obtain eval_id where eval_id: "case_id c = Some eval_id"
    and pre: "list_all (\<lambda>c. case_id c \<noteq> None) pre"
    and post: "list_all (\<lambda>c. case_id c \<noteq> None) post"
    by auto
  from run_evals_loop_total [OF pre, of sd s "[]"]
  obtain rows1 s1 where rows1: "run_evals_loop sd s pre [] = (Inr rows1, s1)"
    "length rows1 = length pre"
    by auto
  let ?row = "case fst (run_case sd s1 c eval_id) of
                Inr result \<Rightarrow> result | Inl e \<Rightarrow> error_row eval_id e"
  let ?s2 = "snd (run_case sd s1 c eval_id)"
  from run_evals_loop_total [OF post, of sd ?s2 "rows1 @ [?row]"]
  obtain rows3 s3 where rows3:
    "run_evals_loop sd ?s2 post (rows1 @ [?row]) = (Inr ((rows1 @ [?row]) @ rows3), s3)"
    "length rows3 = length post"
    by blast
  have "run_evals_loop sd s (pre @ c # post) [] = run_evals_loop sd s1 (c # post) rows1"
    using rows1(1) by (simp only: run_evals_loop_append [of sd s pre] prod.case sum.case)
  also have "\<dots> = run_evals_loop sd ?s2 post (rows1 @ [?row])"
    by (rule run_evals_loop_Cons [OF eval_id])
  also have "\<dots> = (Inr (rows1 @ ?row # rows3), s3)"
    using rows3(1) by simp
  finally have "run_evals sd s (pre @ c # post) = (Inr (rows1 @ ?row # rows3), s3)"
    by (simp add: run_evals_def)
  moreover have "(rows1 @ ?row # rows3) ! length pre = ?row"
    using rows1(2) by (simp add: nth_append)
  moreover have "snd (run_evals sd s pre) = s1"
    using rows1(1) by (simp add: run_evals_def)
  moreover have "the (case_id c) = eval_id"
    using eval_id by simp
  ultimately show ?thesis
    using rows1(2) rows3(2) by (simp cong: sum.case_cong)
qed

lemma attr_column_not_eval_id:
  "attr_name a @ ''_mae'' \<noteq> ''eval_id''" and "attr_name a @ ''_within_1'' \<noteq> ''eval_id''"
  by (cases a; simp)+

lemma map_of_fold_update_other:
  assumes "\<forall>x \<in> set xs. key x \<noteq> k"
  shows "map_of (fold (\<lambda>x. AList.update (key x) (val x)) xs al) k = map_of al k"
  using assms by (induction xs arbitrary: al) (auto simp: update_conv')

lemma flatten_metrics_eval_id:
  "map_of (flatten_metrics eval_id metrics) ''eval_id'' = Some (Str eval_id)"
proof -
  have f: "(\<lambda>(a, x). AList.update (attr_name a @ suf) (Num x))
             = (\<lambda>p. AList.update (attr_name (fst p) @ suf) (Num (snd p)))" for suf
    by (auto simp: fun_eq_iff)
  show ?thesis
    unfolding flatten_metrics_def Let_def f
    by (simp add: map_of_fold_update_other attr_column_not_eval_id)
qed

text \<open>
  C4. For a dataset whose entries all have an id, the runner returns a table and never
  an exception, with one row per case, in the order of the cases, each row carrying the
  id of its case. When the body of a case raises, from the scorer or from the
  computation of the metrics, in the state that the scorer has after the cases before
  it, the row of that case has the id of the case and the message of the exception and
  nothing else, and the cases after it still have their rows.
\<close>

theorem run_evals_isolates_failures_and_keeps_order:
  assumes "list_all (\<lambda>c. case_id c \<noteq> None) eval_dataset"
  shows "\<exists>rows s'. run_evals score_doc s eval_dataset = (Inr rows, s') \<and>
           length rows = length eval_dataset \<and>
           (\<forall>i < length eval_dataset.
              map_of (rows ! i) ''eval_id'' = map_option Str (case_id (eval_dataset ! i)) \<and>
              (\<forall>e s1. run_case score_doc (snd (run_evals score_doc s (take i eval_dataset)))
                         (eval_dataset ! i) (the (case_id (eval_dataset ! i))) = (Inl e, s1)
                 \<longrightarrow> rows ! i = [(''eval_id'', Str (the (case_id (eval_dataset ! i)))),
                                 (''error'', Str (str_exn e))]))"
proof -
  from run_evals_loop_total [OF assms, of score_doc s "[]"]
  obtain rows s' where rows: "run_evals score_doc s eval_dataset = (Inr rows, s')"
    "length rows = length eval_dataset"
    by (auto simp: run_evals_def)
  have "map_of (rows ! i) ''eval_id'' = map_option Str (case_id (eval_dataset ! i)) \<and>
        (\<forall>e s1. run_case score_doc (snd (run_evals score_doc s (take i eval_dataset)))
                   (eval_dataset ! i) (the (case_id (eval_dataset ! i))) = (Inl e, s1)
           \<longrightarrow> rows ! i = [(''eval_id'', Str (the (case_id (eval_dataset ! i)))),
                           (''error'', Str (str_exn e))])"
    if i: "i < length eval_dataset" for i
  proof -
    let ?c = "eval_dataset ! i"
    have split: "eval_dataset = take i eval_dataset @ ?c # drop (Suc i) eval_dataset"
      using i by (rule id_take_nth_drop)
    have ids: "list_all (\<lambda>c. case_id c \<noteq> None) (take i eval_dataset @ ?c # drop (Suc i) eval_dataset)"
      using assms split by simp
    from run_evals_row_at [OF ids, of score_doc s]
    have at: "rows ! i =
                (case fst (run_case score_doc (snd (run_evals score_doc s (take i eval_dataset)))
                             ?c (the (case_id ?c))) of
                   Inr result \<Rightarrow> result | Inl e \<Rightarrow> error_row (the (case_id ?c)) e)"
      using rows(1) i split by (auto simp: min_def)
    from ids obtain eval_id where eval_id: "case_id ?c = Some eval_id" by auto
    obtain r s1 where r: "run_case score_doc (snd (run_evals score_doc s (take i eval_dataset)))
                            ?c eval_id = (r, s1)"
      by (cases "run_case score_doc (snd (run_evals score_doc s (take i eval_dataset))) ?c eval_id")
    show ?thesis
    proof (cases r)
      case (Inl e)
      then show ?thesis using at r eval_id by (simp add: error_row_def)
    next
      case (Inr result)
      then have "\<exists>metrics. result = flatten_metrics eval_id metrics"
        using r
        by (auto simp: run_case_def and_then_def split: sum.splits prod.splits)
      then show ?thesis using at r eval_id Inr by (auto simp: flatten_metrics_eval_id)
    qed
  qed
  then show ?thesis using rows by blast
qed

lemma ex_dataset_ids: "list_all (\<lambda>c. case_id c \<noteq> None) dataset_ex"
  by code_simp

lemma ex_metrics:
  "calculate_eval_metrics predicted_ex expected_ex =
     Inr \<lparr>extraction_accuracy = 2 / 3,
          score_mae = [(Clarity, 2), (Specificity, 0), (Bias, 1), (Actionability, 3 / 2)],
          score_within_1 = [(Clarity, 1 / 2), (Specificity, 1), (Bias, 1 / 2),
                            (Actionability, 1 / 2)],
          section_detection = 1 / 2\<rparr>"
proof -
  have q: "questions predicted_ex = Some pred_questions_ex"
    "questions expected_ex = Some exp_questions_ex"
    "section_averages predicted_ex \<noteq> None"
    by (simp_all add: predicted_ex_def expected_ex_def)
  have e: "map (\<lambda>a. (a, mean_errors (map (abs_error a)
                 (matched_pairs pred_questions_ex exp_questions_ex)))) attributes
             = [(Clarity, 2), (Specificity, 0), (Bias, 1), (Actionability, 3 / 2)]"
    by code_simp
  have w: "map (\<lambda>a. (a, mean_bools (map (\<lambda>pe. abs_error a pe \<le> 1)
                 (matched_pairs pred_questions_ex exp_questions_ex)))) attributes
             = [(Clarity, 1 / 2), (Specificity, 1), (Bias, 1 / 2), (Actionability, 1 / 2)]"
    by code_simp
  show ?thesis
    unfolding calculate_eval_metrics_complete [OF q(1) q(2) ex_pred_complete ex_exp_complete q(3)]
      e w ex_keys ex_sections
    by simp
qed

lemma ex_second_case_raises:
  "run_case scorer_ex (snd (run_evals scorer_ex 0 (take 1 dataset_ex))) (dataset_ex ! 1)
     (the (case_id (dataset_ex ! 1))) = (Inl (Failure ''boom''), 2)"
  by (simp add: run_evals_def dataset_ex_def run_case_def scorer_ex_def and_then_def ex_metrics)

lemma ex_dataset_nth:
  "length dataset_ex = 3" "case_id (dataset_ex ! 1) = Some ''case-2''"
  "case_id (dataset_ex ! 2) = Some ''case-3''"
  by (simp_all add: dataset_ex_def)

theorem run_evals_isolates_failures_and_keeps_order_witness:
  "list_all (\<lambda>c. case_id c \<noteq> None) dataset_ex \<and>
   (\<exists>rows s'. run_evals scorer_ex 0 dataset_ex = (Inr rows, s') \<and>
      length rows = 3 \<and>
      rows ! 1 = [(''eval_id'', Str ''case-2''), (''error'', Str ''boom'')] \<and>
      map_of (rows ! 2) ''eval_id'' = Some (Str ''case-3''))"
proof -
  from run_evals_isolates_failures_and_keeps_order [OF ex_dataset_ids, of scorer_ex 0]
  obtain rows s' where run: "run_evals scorer_ex 0 dataset_ex = (Inr rows, s')"
    and len: "length rows = length dataset_ex"
    and at: "\<And>i. i < length dataset_ex \<Longrightarrow>
      map_of (rows ! i) ''eval_id'' = map_option Str (case_id (dataset_ex ! i)) \<and>
      (\<forall>e s1. run_case scorer_ex (snd (run_evals scorer_ex 0 (take i dataset_ex)))
                 (dataset_ex ! i) (the (case_id (dataset_ex ! i))) = (Inl e, s1)
         \<longrightarrow> rows ! i = [(''eval_id'', Str (the (case_id (dataset_ex ! i)))),
                         (''error'', Str (str_exn e))])"
    by blast
  have "rows ! 1 = [(''eval_id'', Str (the (case_id (dataset_ex ! 1)))),
                    (''error'', Str (str_exn (Failure ''boom'')))]"
    using at [of 1] ex_second_case_raises by (simp add: ex_dataset_nth(1))
  then have second: "rows ! 1 = [(''eval_id'', Str ''case-2''), (''error'', Str ''boom'')]"
    using ex_dataset_nth(2) by simp
  have third: "map_of (rows ! 2) ''eval_id'' = Some (Str ''case-3'')"
    using at [of 2] ex_dataset_nth(1,3) by simp
  show ?thesis
    using run len second third ex_dataset_ids by (simp add: ex_dataset_nth(1))
qed

text \<open>
  An entry that has an id and lacks the document or the expected output raises inside
  the body, and so has an error row like a failure of the scorer.
\<close>

lemma run_case_missing_document:
  "document c = None \<Longrightarrow> run_case sd s c eval_id = (Inl (KeyError ''document''), s)"
  by (simp add: run_case_def)

lemma run_case_missing_expected_output:
  "document c = Some doc \<Longrightarrow> expected_output c = None \<Longrightarrow>
   fst (run_case sd s c eval_id) =
     (case fst (sd s doc) of Inl e \<Rightarrow> Inl e | Inr predicted \<Rightarrow> Inl (KeyError ''expected_output''))"
  by (simp add: run_case_def and_then_def split: prod.splits sum.splits)

text \<open>
  C8. An entry without the field \<open>id\<close> is not demoted to an error row: the id is read
  before the guarded body, the \<^verbatim>\<open>KeyError\<close> leaves \<open>run_evals\<close>, no table is returned and
  the entry after it, which alone gives a row, is not processed. The scorer is not
  called.
\<close>

theorem run_evals_aborts_on_entry_without_id:
  "run_evals scorer_ex 0 dataset_without_id = (Inl (KeyError ''id''), 0) \<and>
   length (projr (fst (run_evals scorer_ex 0 (tl dataset_without_id)))) = 1 \<and>
   isl (fst (run_evals scorer_ex 0 dataset_without_id)) \<and>
   \<not> isl (fst (run_evals scorer_ex 0 (tl dataset_without_id)))"
  by (simp add: run_evals_def dataset_without_id_def run_case_def scorer_ex_def and_then_def
        ex_metrics)

section \<open>The runner's table and the gate\<close>

text \<open>
  The runner stores the extraction accuracy under the column name \<^verbatim>\<open>extraction_acc\<close>,
  and the table of thresholds has the name \<^verbatim>\<open>extraction_accuracy\<close>. A table returned
  by \<open>run_evals\<close> therefore has no mean for \<^verbatim>\<open>extraction_accuracy\<close>, and the gate skips
  that threshold on it.
\<close>

lemma attr_column_not_extraction_accuracy:
  "attr_name a @ ''_mae'' \<noteq> ''extraction_accuracy''"
  "attr_name a @ ''_within_1'' \<noteq> ''extraction_accuracy''"
  by (cases a; simp)+

lemma flatten_metrics_no_extraction_accuracy:
  "map_of (flatten_metrics eval_id metrics) ''extraction_accuracy'' = None"
proof -
  have f: "(\<lambda>(a, x). AList.update (attr_name a @ suf) (Num x))
             = (\<lambda>p. AList.update (attr_name (fst p) @ suf) (Num (snd p)))" for suf
    by (auto simp: fun_eq_iff)
  show ?thesis
    unfolding flatten_metrics_def Let_def f
    by (simp add: map_of_fold_update_other attr_column_not_extraction_accuracy)
qed

lemma run_case_row_no_extraction_accuracy:
  assumes "run_case sd s c eval_id = (Inr result, s')"
  shows "map_of result ''extraction_accuracy'' = None"
proof -
  from assms have "\<exists>metrics. result = flatten_metrics eval_id metrics"
    by (auto simp: run_case_def and_then_def split: sum.splits prod.splits)
  then show ?thesis by (auto simp: flatten_metrics_no_extraction_accuracy)
qed

lemma run_evals_loop_no_extraction_accuracy:
  assumes "run_evals_loop sd s cs results = (Inr rows, s')"
    and "list_all (\<lambda>r. map_of r ''extraction_accuracy'' = None) results"
  shows "list_all (\<lambda>r. map_of r ''extraction_accuracy'' = None) rows"
  using assms
proof (induction cs arbitrary: s results)
  case Nil
  then show ?case by simp
next
  case (Cons c cs)
  from Cons.prems(1) obtain eval_id where eval_id: "case_id c = Some eval_id"
    by (cases "case_id c") auto
  obtain r s1 where r: "run_case sd s c eval_id = (r, s1)" by (cases "run_case sd s c eval_id")
  show ?case
  proof (cases r)
    case (Inl e)
    have "run_evals_loop sd s1 cs (results @ [error_row eval_id e]) = (Inr rows, s')"
      using Cons.prems(1) by (simp add: eval_id r Inl)
    moreover have "list_all (\<lambda>r. map_of r ''extraction_accuracy'' = None)
                     (results @ [error_row eval_id e])"
      using Cons.prems(2) by (simp add: error_row_def)
    ultimately show ?thesis by (rule Cons.IH)
  next
    case (Inr result)
    have "run_evals_loop sd s1 cs (results @ [result]) = (Inr rows, s')"
      using Cons.prems(1) by (simp add: eval_id r Inr)
    moreover have "list_all (\<lambda>r. map_of r ''extraction_accuracy'' = None) (results @ [result])"
      using Cons.prems(2) run_case_row_no_extraction_accuracy [of sd s c eval_id result s1]
      by (simp add: r Inr)
    ultimately show ?thesis by (rule Cons.IH)
  qed
qed

lemma run_evals_table_has_no_extraction_accuracy:
  assumes "run_evals sd s eval_dataset = (Inr rows, s')"
  shows "df_means rows ''extraction_accuracy'' = None"
proof -
  have "list_all (\<lambda>r. map_of r ''extraction_accuracy'' = None) rows"
    using run_evals_loop_no_extraction_accuracy [of sd s eval_dataset "[]" rows s'] assms
    by (simp add: run_evals_def)
  then have "df_column rows ''extraction_accuracy'' = []"
    by (induction rows) (simp_all add: df_column_def List.map_filter_simps)
  then show ?thesis by (simp add: df_means_def)
qed

section \<open>Parsing the CSV answer: the claims\<close>

lemma map_fst_map_entry: "map fst (AList.map_entry k f xs) = map fst xs"
  by (induction xs) auto

lemma map_of_map_entry_at:
  "map_of (AList.map_entry k f xs) k' =
     (if k' = k then map_option f (map_of xs k) else map_of xs k')"
  by (simp add: map_of_map_entry split: option.splits)

lemma map_of_append_score:
  "map_of (append_score sec a v scores) sec' =
     (if sec' = sec
      then map_option (AList.map_entry a (\<lambda>vals. vals @ [v])) (map_of scores sec)
      else map_of scores sec')"
  by (simp add: append_score_def map_of_map_entry_at)

lemma map_fst_append_score: "map fst (append_score sec a v scores) = map fst scores"
  by (simp add: append_score_def map_fst_map_entry)

text \<open>The four appends of one row, on the dictionary of one section.\<close>

lemma four_appends:
  assumes "map fst xs = attributes"
    and "\<forall>a'. map_of xs a' = Some (old a')"
  shows "map fst (AList.map_entry Actionability (\<lambda>vals. vals @ [a])
           (AList.map_entry Bias (\<lambda>vals. vals @ [b])
             (AList.map_entry Specificity (\<lambda>vals. vals @ [s])
               (AList.map_entry Clarity (\<lambda>vals. vals @ [c]) xs)))) = attributes"
    and "map_of (AList.map_entry Actionability (\<lambda>vals. vals @ [a])
           (AList.map_entry Bias (\<lambda>vals. vals @ [b])
             (AList.map_entry Specificity (\<lambda>vals. vals @ [s])
               (AList.map_entry Clarity (\<lambda>vals. vals @ [c]) xs)))) a' =
         Some (old a' @ [case a' of Clarity \<Rightarrow> c | Specificity \<Rightarrow> s | Bias \<Rightarrow> b | Actionability \<Rightarrow> a])"
proof -
  show "map fst (AList.map_entry Actionability (\<lambda>vals. vals @ [a])
           (AList.map_entry Bias (\<lambda>vals. vals @ [b])
             (AList.map_entry Specificity (\<lambda>vals. vals @ [s])
               (AList.map_entry Clarity (\<lambda>vals. vals @ [c]) xs)))) = attributes"
    using assms(1) by (simp add: map_fst_map_entry)
  show "map_of (AList.map_entry Actionability (\<lambda>vals. vals @ [a])
           (AList.map_entry Bias (\<lambda>vals. vals @ [b])
             (AList.map_entry Specificity (\<lambda>vals. vals @ [s])
               (AList.map_entry Clarity (\<lambda>vals. vals @ [c]) xs)))) a' =
         Some (old a' @ [case a' of Clarity \<Rightarrow> c | Specificity \<Rightarrow> s | Bias \<Rightarrow> b | Actionability \<Rightarrow> a])"
    using assms(2) by (cases a') (simp_all add: map_of_map_entry_at)
qed

lemma questions_of_section_snoc:
  "questions_of_section sec' (qs @ [q]) =
     (if section_name q = Some sec' then questions_of_section sec' qs @ [q]
      else questions_of_section sec' qs)"
  by (simp add: questions_of_section_def)

lemma questions_of_section_empty:
  "Some sec \<notin> set (map section_name qs) \<Longrightarrow> questions_of_section sec qs = []"
  by (induction qs) (auto simp: questions_of_section_def)

lemma scores_invariant_step:
  fixes sec t :: string and n c s b a :: int
  assumes inv: "scores_invariant qs scores"
  defines "q \<equiv> \<lparr>section_name = Some sec, question_number = Some n, question_text = Some t,
                  clarity = Some c, specificity = Some s, bias = Some b, actionability = Some a\<rparr>"
  defines "scores0 \<equiv> (if map_of scores sec = None
                        then AList.update sec
                               [(Clarity, []), (Specificity, []), (Bias, []), (Actionability, [])] scores
                        else scores)"
  shows "scores_invariant (qs @ [q])
           (append_score sec Actionability a
             (append_score sec Bias b
               (append_score sec Specificity s
                 (append_score sec Clarity c scores0))))"
proof -
  let ?scores' = "append_score sec Actionability a
             (append_score sec Bias b
               (append_score sec Specificity s
                 (append_score sec Clarity c scores0)))"
  from inv have dist: "distinct (map fst scores)"
    and keys: "Some ` set (map fst scores) = set (map section_name qs)"
    and each: "\<And>sec'. sec' \<in> set (map fst scores) \<Longrightarrow> \<exists>attr_scores.
         map_of scores sec' = Some attr_scores \<and>
         map fst attr_scores = attributes \<and>
         (\<forall>a. map_of attr_scores a = Some (map (score a) (questions_of_section sec' qs)))"
    unfolding scores_invariant_def by blast+
  have keys0: "set (map fst scores0) = insert sec (set (map fst scores))"
    by (auto simp: scores0_def dom_update map_of_eq_None_iff)
  have dist0: "distinct (map fst scores0)"
    using dist by (simp add: scores0_def distinct_update)
  have other0: "map_of scores0 sec' = map_of scores sec'" if "sec' \<noteq> sec" for sec'
    using that by (simp add: scores0_def update_conv')
  have at0: "\<exists>xs. map_of scores0 sec = Some xs \<and> map fst xs = attributes \<and>
               (\<forall>a'. map_of xs a' = Some (map (score a') (questions_of_section sec qs)))"
  proof (cases "map_of scores sec")
    case None
    then have "sec \<notin> set (map fst scores)" by (simp add: map_of_eq_None_iff)
    then have "Some sec \<notin> Some ` set (map fst scores)" by auto
    then have "Some sec \<notin> set (map section_name qs)" unfolding keys .
    then have empty: "questions_of_section sec qs = []" by (rule questions_of_section_empty)
    let ?init = "[(Clarity, []), (Specificity, []), (Bias, []), (Actionability, [])]
                   :: (attr \<times> int list) list"
    have init: "\<forall>a'. map_of ?init a' = Some (map (score a') (questions_of_section sec qs))"
    proof
      fix a' show "map_of ?init a' = Some (map (score a') (questions_of_section sec qs))"
        by (cases a') (simp_all add: empty)
    qed
    have m: "map_of scores0 sec = Some ?init"
      using None by (simp add: scores0_def update_conv')
    have f: "map fst ?init = attributes" by (simp add: attributes_def)
    show ?thesis using m f init by blast
  next
    case (Some xs)
    then have "sec \<in> set (map fst scores)"
      by (metis map_of_eq_None_iff option.distinct(1) set_map)
    from each [OF this] Some show ?thesis by (simp add: scores0_def)
  qed
  then obtain xs where xs: "map_of scores0 sec = Some xs" "map fst xs = attributes"
    "\<forall>a'. map_of xs a' = Some (map (score a') (questions_of_section sec qs))"
    by blast
  have keys': "map fst ?scores' = map fst scores0"
    by (simp add: map_fst_append_score)
  have "distinct (map fst ?scores')" using dist0 by (simp add: keys')
  moreover have "Some ` set (map fst ?scores') = set (map section_name (qs @ [q]))"
  proof -
    have "Some ` set (map fst ?scores') = insert (Some sec) (Some ` set (map fst scores))"
      unfolding keys' keys0 by simp
    also have "\<dots> = insert (Some sec) (set (map section_name qs))"
      unfolding keys ..
    also have "\<dots> = set (map section_name (qs @ [q]))"
      by (simp add: q_def)
    finally show ?thesis .
  qed
  moreover have "\<exists>attr_scores.
         map_of ?scores' sec' = Some attr_scores \<and>
         map fst attr_scores = attributes \<and>
         (\<forall>a. map_of attr_scores a = Some (map (score a) (questions_of_section sec' (qs @ [q]))))"
    if "sec' \<in> set (map fst ?scores')" for sec'
  proof (cases "sec' = sec")
    case True
    have sc: "score a' q = (case a' of Clarity \<Rightarrow> c | Specificity \<Rightarrow> s | Bias \<Rightarrow> b | Actionability \<Rightarrow> a)"
      for a'
      by (cases a') (simp_all add: score_def q_def)
    have sq: "section_name q = Some sec" by (simp add: q_def)
    show ?thesis
      using four_appends [OF xs(2) xs(3), of a b s c]
      by (simp add: True map_of_append_score xs(1) questions_of_section_snoc sq sc)
  next
    case False
    from that have "sec' \<in> insert sec (set (map fst scores))"
      unfolding keys' keys0 .
    with False have "sec' \<in> set (map fst scores)" by blast
    from each [OF this] False show ?thesis
      by (simp add: map_of_append_score other0 questions_of_section_snoc q_def)
  qed
  ultimately show ?thesis
    unfolding scores_invariant_def by blast
qed

lemma scores_invariant_parse_rows:
  assumes "parse_rows int_of rows qs scores = Inr (qs', scores')"
    and "scores_invariant qs scores"
  shows "scores_invariant qs' scores'"
  using assms
proof (induction rows arbitrary: qs scores)
  case Nil
  then show ?case by simp
next
  case (Cons r rows)
  from Cons.prems(1) obtain n c s b a where conv:
    "int_of (csv_Question_Number r) = Inr n" "int_of (csv_Clarity r) = Inr c"
    "int_of (csv_Specificity r) = Inr s" "int_of (csv_Bias r) = Inr b"
    "int_of (csv_Actionability r) = Inr a"
    by (auto simp: and_then_def split: sum.splits)
  let ?q = "\<lparr>section_name = Some (csv_Section r), question_number = Some n,
             question_text = Some (csv_Question_Text r), clarity = Some c,
             specificity = Some s, bias = Some b, actionability = Some a\<rparr>"
  let ?scores0 = "(if map_of scores (csv_Section r) = None
                   then AList.update (csv_Section r)
                          [(Clarity, []), (Specificity, []), (Bias, []), (Actionability, [])] scores
                   else scores)"
  let ?scores1 = "append_score (csv_Section r) Actionability a
             (append_score (csv_Section r) Bias b
               (append_score (csv_Section r) Specificity s
                 (append_score (csv_Section r) Clarity c ?scores0)))"
  have next_call: "parse_rows int_of rows (qs @ [?q]) ?scores1 = Inr (qs', scores')"
    using Cons.prems(1) by (simp add: and_then_def conv Let_def)
  have "scores_invariant (qs @ [?q]) ?scores1"
    by (rule scores_invariant_step [OF Cons.prems(2)])
  with next_call show ?case by (rule Cons.IH)
qed

lemma scores_invariant_empty: "scores_invariant [] []"
  by (simp add: scores_invariant_def)

lemma average_attrs_Inr:
  "average_attrs xs = Inr avgs \<Longrightarrow>
   avgs = map (\<lambda>(a, vals). (a, real_of_int (sum_list vals) / real (length vals))) xs"
proof (induction xs arbitrary: avgs)
  case Nil
  then show ?case by simp
next
  case (Cons x xs)
  obtain a vals where x: "x = (a, vals)" by (cases x)
  from Cons.prems obtain rest where rest: "average_attrs xs = Inr rest"
    and avgs: "avgs = (a, real_of_int (sum_list vals) / real (length vals)) # rest"
    by (auto simp: x and_then_def average_def split: sum.splits if_splits)
  show ?case using Cons.IH [OF rest] by (simp add: avgs x)
qed

lemma average_sections_Inr:
  "average_sections scores = Inr avgs \<Longrightarrow>
   avgs = map (\<lambda>(sec, xs). (sec, map (\<lambda>(a, vals). (a, real_of_int (sum_list vals) / real (length vals))) xs))
            scores"
proof (induction scores arbitrary: avgs)
  case Nil
  then show ?case by simp
next
  case (Cons x scores)
  obtain sec xs where x: "x = (sec, xs)" by (cases x)
  from Cons.prems obtain here rest where here: "average_attrs xs = Inr here"
    and rest: "average_sections scores = Inr rest"
    and avgs: "avgs = (sec, here) # rest"
    by (auto simp: x and_then_def split: sum.splits)
  show ?case
    using Cons.IH [OF rest] average_attrs_Inr [OF here] by (simp add: avgs x)
qed

lemma map_of_map_values:
  "map_of (map (\<lambda>(k, v). (k, f v)) xs) k = map_option f (map_of xs k)"
  by (induction xs) auto

text \<open>
  C9. In a result of \<open>_parse_csv_output\<close>, in either module, the keys of
  \<open>section_averages\<close> are distinct and are exactly the sections that occur in
  \<open>questions\<close>, and for each of them and each of the four attributes the stored average
  is the arithmetic mean of the attribute over the questions of the section.
\<close>

theorem section_averages_are_derived_from_questions:
  assumes "parse_csv_output int_of rows = Inr r"
  shows "\<exists>qs avgs. questions r = Some qs \<and> section_averages r = Some avgs \<and>
           distinct (map fst avgs) \<and>
           Some ` set (map fst avgs) = set (map section_name qs) \<and>
           (\<forall>sec \<in> set (map fst avgs). \<forall>a. \<exists>attr_avgs.
              map_of avgs sec = Some attr_avgs \<and>
              map_of attr_avgs a = Some (section_mean a sec qs))"
proof -
  from assms obtain qs scores avgs where parsed: "parse_rows int_of rows [] [] = Inr (qs, scores)"
    and averaged: "average_sections scores = Inr avgs"
    and r: "r = \<lparr>questions = Some qs, section_averages = Some avgs\<rparr>"
    by (auto simp: parse_csv_output_def and_then_def split: sum.splits prod.splits)
  have inv: "scores_invariant qs scores"
    by (rule scores_invariant_parse_rows [OF parsed scores_invariant_empty])
  let ?mean = "\<lambda>(a, vals). (a, real_of_int (sum_list vals) / real (length vals))"
  have avgs: "avgs = map (\<lambda>(sec, xs). (sec, map ?mean xs)) scores"
    by (rule average_sections_Inr [OF averaged])
  have keys: "map fst avgs = map fst scores"
    by (simp add: avgs case_prod_beta comp_def)
  have "\<exists>attr_avgs. map_of avgs sec = Some attr_avgs \<and>
          map_of attr_avgs a = Some (section_mean a sec qs)"
    if "sec \<in> set (map fst avgs)" for sec a
  proof -
    from that inv obtain xs where xs: "map_of scores sec = Some xs"
      "map_of xs a = Some (map (score a) (questions_of_section sec qs))"
      unfolding scores_invariant_def keys by blast
    have "map_of avgs sec = Some (map ?mean xs)"
      unfolding avgs by (simp add: map_of_map_values xs(1))
    moreover have "map_of (map ?mean xs) a = Some (section_mean a sec qs)"
      by (simp add: map_of_map_values xs(2) section_mean_def)
    ultimately show ?thesis by blast
  qed
  moreover have "distinct (map fst avgs)"
    and "Some ` set (map fst avgs) = set (map section_name qs)"
    using inv unfolding keys scores_invariant_def by blast+
  ultimately show ?thesis by (simp add: r)
qed

lemma ex_parse_rows:
  "parse_rows to_int_ex csv_rows_ex [] [] =
     Inr ([mk_question ''A'' ''Age?'' 1 5 4 3 2, mk_question ''B'' ''Name?'' 1 1 1 3 2,
           mk_question ''A'' ''Job?'' 2 2 1 3 2],
          [(''A'', [(Clarity, [5, 2]), (Specificity, [4, 1]), (Bias, [3, 3]), (Actionability, [2, 2])]),
           (''B'', [(Clarity, [1]), (Specificity, [1]), (Bias, [3]), (Actionability, [2])])])"
  by (simp add: csv_rows_ex_def to_int_ex_def and_then_def append_score_def Let_def mk_question_def)

lemma ex_parse: "parse_csv_output to_int_ex csv_rows_ex = Inr parsed_ex"
  by (simp add: parse_csv_output_def ex_parse_rows and_then_def average_def parsed_ex_def)

lemma ex_section_mean:
  "section_mean Clarity ''A''
     [mk_question ''A'' ''Age?'' 1 5 4 3 2, mk_question ''B'' ''Name?'' 1 1 1 3 2,
      mk_question ''A'' ''Job?'' 2 2 1 3 2] = 7 / 2"
  by code_simp

theorem section_averages_are_derived_from_questions_witness:
  "parse_csv_output to_int_ex csv_rows_ex = Inr parsed_ex \<and>
   (\<exists>qs avgs attr_avgs. questions parsed_ex = Some qs \<and> section_averages parsed_ex = Some avgs \<and>
      Some ` set (map fst avgs) = set (map section_name qs) \<and>
      map_of avgs ''A'' = Some attr_avgs \<and>
      map_of attr_avgs Clarity = Some (section_mean Clarity ''A'' qs) \<and>
      section_mean Clarity ''A'' qs = 7 / 2)"
proof -
  from section_averages_are_derived_from_questions [OF ex_parse]
  obtain qs avgs where qs: "questions parsed_ex = Some qs"
    and avgs: "section_averages parsed_ex = Some avgs"
    and keys: "Some ` set (map fst avgs) = set (map section_name qs)"
    and means: "\<forall>sec \<in> set (map fst avgs). \<forall>a. \<exists>attr_avgs.
              map_of avgs sec = Some attr_avgs \<and>
              map_of attr_avgs a = Some (section_mean a sec qs)"
    by (elim exE conjE)
  have "''A'' \<in> set (map fst avgs)"
    using avgs by (auto simp: parsed_ex_def)
  from bspec [OF means this]
  have "\<exists>attr_avgs. map_of avgs ''A'' = Some attr_avgs \<and>
      map_of attr_avgs Clarity = Some (section_mean Clarity ''A'' qs)"
    by (rule spec)
  then obtain attr_avgs where a:
    "map_of avgs ''A'' = Some attr_avgs"
    "map_of attr_avgs Clarity = Some (section_mean Clarity ''A'' qs)"
    by (elim exE conjE)
  have "qs = [mk_question ''A'' ''Age?'' 1 5 4 3 2, mk_question ''B'' ''Name?'' 1 1 1 3 2,
              mk_question ''A'' ''Job?'' 2 2 1 3 2]"
    using qs by (simp add: parsed_ex_def)
  then have m: "section_mean Clarity ''A'' qs = 7 / 2"
    by (simp only: ex_section_mean)
  show ?thesis
  proof (intro conjI exI)
    show "parse_csv_output to_int_ex csv_rows_ex = Inr parsed_ex" by (rule ex_parse)
    show "questions parsed_ex = Some qs" by (rule qs)
    show "section_averages parsed_ex = Some avgs" by (rule avgs)
    show "Some ` set (map fst avgs) = set (map section_name qs)" by (rule keys)
    show "map_of avgs ''A'' = Some attr_avgs" by (rule a(1))
    show "map_of attr_avgs Clarity = Some (section_mean Clarity ''A'' qs)" by (rule a(2))
    show "section_mean Clarity ''A'' qs = 7 / 2" by (rule m)
  qed
qed

section \<open>The parser returns whenever the conversions succeed\<close>

lemma average_attrs_total:
  "\<forall>(a, vals) \<in> set xs. vals \<noteq> [] \<Longrightarrow> \<exists>avgs. average_attrs xs = Inr avgs"
  by (induction xs) (auto simp: and_then_def average_def)

lemma average_sections_total:
  "\<forall>(sec, xs) \<in> set scores. \<forall>(a, vals) \<in> set xs. vals \<noteq> [] \<Longrightarrow>
   \<exists>avgs. average_sections scores = Inr avgs"
proof (induction scores)
  case Nil
  then show ?case by simp
next
  case (Cons x scores)
  obtain sec xs where x: "x = (sec, xs)" by (cases x)
  from Cons.prems have "\<forall>(a, vals) \<in> set xs. vals \<noteq> []" by (simp add: x)
  then obtain here where here: "average_attrs xs = Inr here"
    using average_attrs_total by blast
  from Cons obtain rest where rest: "average_sections scores = Inr rest" by auto
  show ?case by (simp add: x here rest and_then_def)
qed

lemma scores_invariant_nonempty:
  assumes inv: "scores_invariant qs scores"
    and sec: "(sec, xs) \<in> set scores" and a: "(a, vals) \<in> set xs"
  shows "vals \<noteq> []"
proof -
  from inv have dist: "distinct (map fst scores)"
    and keys: "Some ` set (map fst scores) = set (map section_name qs)"
    unfolding scores_invariant_def by blast+
  have in_keys: "sec \<in> set (map fst scores)" using sec by force
  with inv obtain attr_scores where at: "map_of scores sec = Some attr_scores"
    "map fst attr_scores = attributes"
    "\<forall>a. map_of attr_scores a = Some (map (score a) (questions_of_section sec qs))"
    unfolding scores_invariant_def by blast
  have "map_of scores sec = Some xs" using dist sec by simp
  with at have xs: "map fst xs = attributes"
    "map_of xs a = Some (map (score a) (questions_of_section sec qs))"
    by simp_all
  have "distinct (map fst xs)" by (simp add: xs(1) attributes_def)
  then have "map_of xs a = Some vals" using a by simp
  with xs(2) have vals: "vals = map (score a) (questions_of_section sec qs)" by simp
  have "Some sec \<in> set (map section_name qs)"
    using in_keys keys by blast
  then have "questions_of_section sec qs \<noteq> []"
    by (auto simp: questions_of_section_def filter_empty_conv)
  with vals show ?thesis by simp
qed

lemma parse_rows_total:
  assumes "\<forall>r \<in> set rows.
             (\<exists>n. int_of (csv_Question_Number r) = Inr n) \<and> (\<exists>n. int_of (csv_Clarity r) = Inr n) \<and>
             (\<exists>n. int_of (csv_Specificity r) = Inr n) \<and> (\<exists>n. int_of (csv_Bias r) = Inr n) \<and>
             (\<exists>n. int_of (csv_Actionability r) = Inr n)"
  shows "\<exists>qs' scores'. parse_rows int_of rows qs scores = Inr (qs', scores')"
  using assms
proof (induction rows arbitrary: qs scores)
  case Nil
  then show ?case by simp
next
  case (Cons r rows)
  from Cons.prems obtain n c s b a where conv:
    "int_of (csv_Question_Number r) = Inr n" "int_of (csv_Clarity r) = Inr c"
    "int_of (csv_Specificity r) = Inr s" "int_of (csv_Bias r) = Inr b"
    "int_of (csv_Actionability r) = Inr a"
    by auto
  from Cons.prems have rest: "\<forall>r \<in> set rows.
             (\<exists>n. int_of (csv_Question_Number r) = Inr n) \<and> (\<exists>n. int_of (csv_Clarity r) = Inr n) \<and>
             (\<exists>n. int_of (csv_Specificity r) = Inr n) \<and> (\<exists>n. int_of (csv_Bias r) = Inr n) \<and>
             (\<exists>n. int_of (csv_Actionability r) = Inr n)"
    by simp
  show ?case
    using Cons.IH [OF rest] by (simp add: and_then_def conv Let_def)
qed

lemma parse_csv_output_total:
  assumes "\<forall>r \<in> set rows.
             (\<exists>n. int_of (csv_Question_Number r) = Inr n) \<and> (\<exists>n. int_of (csv_Clarity r) = Inr n) \<and>
             (\<exists>n. int_of (csv_Specificity r) = Inr n) \<and> (\<exists>n. int_of (csv_Bias r) = Inr n) \<and>
             (\<exists>n. int_of (csv_Actionability r) = Inr n)"
  shows "\<exists>r. parse_csv_output int_of rows = Inr r"
proof -
  from parse_rows_total [OF assms, of "[]" "[]"]
  obtain qs scores where parsed: "parse_rows int_of rows [] [] = Inr (qs, scores)" by blast
  have inv: "scores_invariant qs scores"
    by (rule scores_invariant_parse_rows [OF parsed scores_invariant_empty])
  have "\<forall>(sec, xs) \<in> set scores. \<forall>(a, vals) \<in> set xs. vals \<noteq> []"
    using scores_invariant_nonempty [OF inv] by blast
  then obtain avgs where "average_sections scores = Inr avgs"
    using average_sections_total by blast
  then show ?thesis by (simp add: parse_csv_output_def parsed and_then_def)
qed

section \<open>Scoring a document: the claims\<close>

lemma content_blocks_for_events:
  "snd (content_blocks_for env doc_path suffix) =
     (if suffix = ''.docx'' then [Read_docx doc_path]
      else if suffix = ''.pdf'' then [Read_file doc_path] else [])"
  by (simp add: content_blocks_for_def)

lemma content_blocks_for_unsupported:
  "suffix \<noteq> ''.docx'' \<Longrightarrow> suffix \<noteq> ''.pdf'' \<Longrightarrow>
   content_blocks_for env doc_path suffix = (Inl (unsupported_format suffix), [])"
  by (simp add: content_blocks_for_def)

text \<open>The events of a call begin with those of building the content blocks.\<close>

lemma score_document_events:
  "\<exists>later. snd (score_document env doc_path save_csv) =
     snd (content_blocks_for env doc_path (str_lower (path_suffix env doc_path))) @ later"
  by (simp add: score_document_def Let_def split: prod.splits sum.splits)

lemma media_type_for_cases:
  "media_type_for suffix =
     (if suffix = ''.docx''
      then ''application/vnd.openxmlformats-officedocument.wordprocessingml.document''
      else if suffix = ''.pdf'' then ''application/pdf''
      else if suffix = ''.doc'' then ''application/msword''
      else ''application/pdf'')"
  by (simp add: media_type_for_def media_types_def)

lemma legacy_score_document_events:
  "read_base64 env doc_path = Inr doc_data \<Longrightarrow>
   snd (legacy_score_document env doc_path) =
     [Read_file doc_path,
      Messages_create [Document_block (media_type_for (str_lower (path_suffix env doc_path))) doc_data,
                       Text_block (scoring_prompt env)]]"
  by (simp add: legacy_score_document_def Let_def split: sum.splits)

lemma ex_suffixes:
  "str_lower (path_suffix env_ex ''notes.txt'') = ''.txt''"
  "str_lower (path_suffix env_ex ''survey.DOC'') = ''.doc''"
  by code_simp+

lemma ex_read: "read_base64 env_ex p = Inr ''QUJD''" and ex_prompt: "scoring_prompt env_ex = ''PROMPT''"
  by (simp_all add: env_ex_def)

text \<open>
  C10, as the claim has it, fails in its last part: for the suffix \<^verbatim>\<open>.doc\<close>, which is
  neither \<^verbatim>\<open>.docx\<close> nor \<^verbatim>\<open>.pdf\<close>, the older module does not fall back to the PDF media
  type; it calls the service with \<^verbatim>\<open>application/msword\<close>.
\<close>

theorem legacy_doc_suffix_is_not_pdf:
  "str_lower (path_suffix env_ex ''survey.DOC'') \<noteq> ''.docx'' \<and>
   str_lower (path_suffix env_ex ''survey.DOC'') \<noteq> ''.pdf'' \<and>
   snd (legacy_score_document env_ex ''survey.DOC'') =
     [Read_file ''survey.DOC'',
      Messages_create [Document_block ''application/msword'' ''QUJD'', Text_block ''PROMPT'']] \<and>
   media_type_for (str_lower (path_suffix env_ex ''survey.DOC'')) \<noteq> ''application/pdf''"
  by (simp add: legacy_score_document_events [OF ex_read] ex_suffixes ex_prompt
        media_type_for_cases)

text \<open>
  C10, amended. When the suffix of the path, in lower case, is neither \<^verbatim>\<open>.docx\<close> nor
  \<^verbatim>\<open>.pdf\<close>, \<open>score_document\<close> of questionnaire_scorer.py raises the \<^verbatim>\<open>ValueError\<close> that
  names the suffix, with no event before it: no file is read and the scoring service is
  not called. It does so for exactly those suffixes: for \<^verbatim>\<open>.docx\<close> and \<^verbatim>\<open>.pdf\<close> the call
  begins with reading the document. The older module has no such check: when the file
  can be read, it calls the service with the media type of its table, which is
  \<^verbatim>\<open>application/msword\<close> for \<^verbatim>\<open>.doc\<close> and the PDF media type for every other suffix
  that is neither \<^verbatim>\<open>.docx\<close> nor \<^verbatim>\<open>.pdf\<close>.
\<close>

theorem unsupported_suffix_raises_before_any_call:
  "(str_lower (path_suffix env doc_path) \<noteq> ''.docx'' \<and>
    str_lower (path_suffix env doc_path) \<noteq> ''.pdf'' \<longrightarrow>
      score_document env doc_path save_csv =
        (Inl (ValueError (''Unsupported file format: '' @ str_lower (path_suffix env doc_path)
                @ ''. Use .docx or .pdf'')), [])) \<and>
   (snd (score_document env doc_path save_csv) = []) =
     (str_lower (path_suffix env doc_path) \<noteq> ''.docx'' \<and>
      str_lower (path_suffix env doc_path) \<noteq> ''.pdf'') \<and>
   (str_lower (path_suffix env doc_path) = ''.docx'' \<longrightarrow>
      hd (snd (score_document env doc_path save_csv)) = Read_docx doc_path) \<and>
   (str_lower (path_suffix env doc_path) = ''.pdf'' \<longrightarrow>
      hd (snd (score_document env doc_path save_csv)) = Read_file doc_path) \<and>
   (\<forall>doc_data. read_base64 env doc_path = Inr doc_data \<longrightarrow>
      snd (legacy_score_document env doc_path) =
        [Read_file doc_path,
         Messages_create
           [Document_block (media_type_for (str_lower (path_suffix env doc_path))) doc_data,
            Text_block (scoring_prompt env)]]) \<and>
   (str_lower (path_suffix env doc_path) \<noteq> ''.docx'' \<and>
    str_lower (path_suffix env doc_path) \<noteq> ''.pdf'' \<longrightarrow>
      media_type_for (str_lower (path_suffix env doc_path)) =
        (if str_lower (path_suffix env doc_path) = ''.doc'' then ''application/msword''
         else ''application/pdf''))"
proof -
  let ?suffix = "str_lower (path_suffix env doc_path)"
  obtain later where ev: "snd (score_document env doc_path save_csv) =
      snd (content_blocks_for env doc_path ?suffix) @ later"
    using score_document_events by blast
  have raises: "score_document env doc_path save_csv =
        (Inl (ValueError (''Unsupported file format: '' @ ?suffix @ ''. Use .docx or .pdf'')), [])"
    if "?suffix \<noteq> ''.docx''" and "?suffix \<noteq> ''.pdf''"
    using content_blocks_for_unsupported [OF that, of env doc_path]
    by (simp add: score_document_def Let_def unsupported_format_def)
  have empty: "(snd (score_document env doc_path save_csv) = []) =
     (?suffix \<noteq> ''.docx'' \<and> ?suffix \<noteq> ''.pdf'')"
  proof (cases "?suffix \<noteq> ''.docx'' \<and> ?suffix \<noteq> ''.pdf''")
    case True
    then have "snd (score_document env doc_path save_csv) = []"
      using raises by simp
    with True show ?thesis by simp
  next
    case False
    then have "snd (score_document env doc_path save_csv) \<noteq> []"
      by (auto simp: ev content_blocks_for_events)
    with False show ?thesis by simp
  qed
  have docx: "hd (snd (score_document env doc_path save_csv)) = Read_docx doc_path"
    if "?suffix = ''.docx''"
    using that by (simp add: ev content_blocks_for_events)
  have pdf: "hd (snd (score_document env doc_path save_csv)) = Read_file doc_path"
    if "?suffix = ''.pdf''"
    using that by (simp add: ev content_blocks_for_events)
  show ?thesis
    using raises empty docx pdf
    by (simp add: legacy_score_document_events media_type_for_cases)
qed

theorem unsupported_suffix_raises_before_any_call_witness:
  "str_lower (path_suffix env_ex ''notes.txt'') \<noteq> ''.docx'' \<and>
   str_lower (path_suffix env_ex ''notes.txt'') \<noteq> ''.pdf'' \<and>
   score_document env_ex ''notes.txt'' True =
     (Inl (ValueError ''Unsupported file format: .txt. Use .docx or .pdf''), []) \<and>
   snd (legacy_score_document env_ex ''notes.txt'') =
     [Read_file ''notes.txt'',
      Messages_create [Document_block ''application/pdf'' ''QUJD'', Text_block ''PROMPT'']]"
  using unsupported_suffix_raises_before_any_call [of env_ex "''notes.txt''" True]
  by (simp add: ex_suffixes ex_read ex_prompt)

end
